theory Spec2Isabelle
  imports Main "HOL-Library.Sublist"
begin

section \<open>The viewconf migration command of higlass-manage\<close>

text \<open>
  A shallow embedding of \<^verbatim>\<open>update_viewconfs\<close> from
  \<^verbatim>\<open>higlass_manage/update_viewconfs.py\<close>.  The command resolves the old and the new
  endpoint, stops the named container, copies the database to
  \<^verbatim>\<open><data_dir>/<SQLITEDB>.updated\<close> and runs one SQL \<^verbatim>\<open>UPDATE\<close> on the copy.

  A Python string is modelled by the bytes the operating system holds for it
  (\<^verbatim>\<open>os.fsencode\<close>: UTF-8, with a lone surrogate of \<^verbatim>\<open>surrogateescape\<close> standing for a byte
  that is not UTF-8), as a \<open>string\<close>; \<^verbatim>\<open>None\<close>-able values as
  \<open>option\<close>; every raise and \<^verbatim>\<open>sys.exit\<close> as a value of \<open>exn\<close>.  What the command
  calls but does not define (the registry functions of \<^verbatim>\<open>.common\<close>, \<^verbatim>\<open>_stop\<close>, the
  \<^verbatim>\<open>sqlite3\<close> executable, faults of the storage layer) is a field of the record \<open>env\<close>;
  stopping the container and the \<^verbatim>\<open>sqlite3\<close> process may both change files.
  Everything observable that the command does, in order, is appended to a trace.
\<close>

subsection \<open>Characters, paths\<close>

definition apostrophe :: char where
  "apostrophe = CHR 0x27"

text \<open>\<^verbatim>\<open>os.path.join(a, b)\<close> (posixpath) for two components.\<close>

definition op_join :: "string \<Rightarrow> string \<Rightarrow> string" where
  "op_join a b =
     (if prefix ''/'' b then b
      else if a = [] \<or> suffix ''/'' a then a @ b
      else a @ ''/'' @ b)"

subsection \<open>Exceptions, files, events\<close>

datatype exn =
    NotFound
  | NameError string
  | ValueError string
  | TypeError
  | RuntimeError int
  | FileNotFoundError
  | SqliteError
  | ProgrammingError
  | UnicodeEncodeError
  | SystemExit int
  | OtherException string

text \<open>
  The content of a file.  \<open>Store rows\<close> is a database whose table
  \<^verbatim>\<open>tilesets_viewconf\<close> holds, row by row, the texts \<open>rows\<close> in its column
  \<^verbatim>\<open>viewconf\<close>.  \<open>Unusable bs\<close> is any other content (not a database, or a database
  without that table): an \<^verbatim>\<open>UPDATE\<close> on it raises.
\<close>

datatype dbfile = Store "string list" | Unusable string

type_synonym filesystem = "string \<Rightarrow> dbfile option"

text \<open>The four texts the command writes to \<^verbatim>\<open>sys.stderr\<close>, with what each
  interpolates; \<open>render\<close> gives the characters written.\<close>

datatype message =
    InstanceNotRunning string
  | Sqlite3NotInstalled
  | FailedToConnect string
  | ReadyForMigration string

datatype event =
    GetSiteUrl string
  | GetPort string
  | GetDataDir string
  | Stop "string list"
  | RunProcess "string list"
  | ProcessExit int
  | CopyFile string string
  | Connect string
  | Execute string
  | Commit
  | Rollback
  | CloseConn
  | Stderr message

record world =
  files :: filesystem
  trace :: "event list"

definition newline :: char where
  "newline = CHR 0x0A"

definition render :: "message \<Rightarrow> string" where
  "render m =
     (case m of
        InstanceNotRunning old_hg_name' \<Rightarrow> ''Instance not running: '' @ old_hg_name' @ [newline]
      | Sqlite3NotInstalled \<Rightarrow>
          ''sqlite3 is not installed!'' @
          ''script will attempt to copy the database file instead.''
      | FailedToConnect update_db_path \<Rightarrow> ''Failed to connect to '' @ update_db_path
      | ReadyForMigration update_db_path \<Rightarrow>
          update_db_path @ '' has been updated and ready for migration'' @
          '' copy it to the new host along with the media folder'' @
          '' rename the database file back to db.sqlite3 and restart higlass.'')"

definition log :: "event \<Rightarrow> world \<Rightarrow> world" where
  "log e w = w\<lparr>trace := trace w @ [e]\<rparr>"

text \<open>The outcome of \<^verbatim>\<open>subprocess.run\<close>: \<^verbatim>\<open>OSError\<close> when the executable cannot be
  started, otherwise the return code and the file system the process leaves.\<close>

datatype proc_result = NotInstalled | Exited int filesystem

record env =
  get_site_url :: "string \<Rightarrow> exn + string"
  get_port :: "string \<Rightarrow> exn + string"
  get_data_dir :: "string \<Rightarrow> exn + string"
  SQLITEDB :: string
  stop :: "string list \<Rightarrow> filesystem \<Rightarrow> exn option \<times> filesystem"
  sp_run :: "string list \<Rightarrow> filesystem \<Rightarrow> proc_result"
  connect_fails :: "string \<Rightarrow> bool"
  write_fault :: "nat \<Rightarrow> bool"
  commit_fault :: bool
  sqlite_other :: "string \<Rightarrow> string list \<Rightarrow> exn + string list"

subsection \<open>Command line\<close>

text \<open>The parameters of \<^verbatim>\<open>update_viewconfs\<close>, after click has applied its defaults.\<close>

record args =
  old_hg_name :: "string option"
  old_site_url :: "string option"
  old_port :: string
  old_data_dir :: "string option"
  new_site_url :: string
  new_port :: string

text \<open>The click options \<^verbatim>\<open>--old-port\<close> and \<^verbatim>\<open>--new-port\<close>: \<^verbatim>\<open>default="80", type=str\<close>;
  \<^verbatim>\<open>--new-site-url\<close>: \<^verbatim>\<open>default="http://localhost"\<close>.\<close>

definition old_port_option :: "string option \<Rightarrow> string" where
  "old_port_option v = (case v of None \<Rightarrow> ''80'' | Some p \<Rightarrow> p)"

definition new_port_option :: "string option \<Rightarrow> string" where
  "new_port_option v = (case v of None \<Rightarrow> ''80'' | Some p \<Rightarrow> p)"

definition new_site_url_option :: "string option \<Rightarrow> string" where
  "new_site_url_option v = (case v of None \<Rightarrow> ''http://localhost'' | Some u \<Rightarrow> u)"

subsection \<open>Resolution of the origin (lines 101--114)\<close>

text \<open>The names bound at module level by the imports and the definition of the file.
  \<^verbatim>\<open>docker\<close> is not among them.\<close>

definition module_globals :: "string list" where
  "module_globals =
     [''sys'', ''click'', ''op'', ''sqlite3'', ''shutil'', ''partial'', ''sp'',
      ''get_data_dir'', ''get_site_url'', ''get_port'', ''SQLITEDB'', ''_stop'',
      ''update_viewconfs'']"

type_synonym origin_vars = "string option \<times> string \<times> string option"

text \<open>
  \<^verbatim>\<open>except docker.errors.NotFound as ex:\<close> for an exception \<open>ex\<close> raised in the
  \<^verbatim>\<open>try\<close> block.  Python evaluates the expression \<^verbatim>\<open>docker.errors.NotFound\<close> when it
  matches the exception; an unbound global raises \<^verbatim>\<open>NameError\<close>.  \<open>vars\<close> are the
  values of \<^verbatim>\<open>old_site_url, old_port, old_data_dir\<close> when the exception was raised.
\<close>

definition except_NotFound ::
  "string \<Rightarrow> exn \<Rightarrow> origin_vars \<Rightarrow> world \<Rightarrow> (exn + origin_vars) \<times> world" where
  "except_NotFound name ex vars w =
     (if ''docker'' \<notin> set module_globals then (Inl (NameError ''docker''), w)
      else if ex = NotFound
        then (Inr vars, log (Stderr (InstanceNotRunning name)) w)
      else (Inl ex, w))"

definition resolve_origin :: "env \<Rightarrow> args \<Rightarrow> world \<Rightarrow> (exn + origin_vars) \<times> world" where
  "resolve_origin en a w =
     (case old_hg_name a of
        Some name \<Rightarrow>
          (let w1 = log (GetSiteUrl name) w in
           case get_site_url en name of
             Inl ex \<Rightarrow> except_NotFound name ex (old_site_url a, old_port a, old_data_dir a) w1
           | Inr u \<Rightarrow>
               (let w2 = log (GetPort name) w1 in
                case get_port en name of
                  Inl ex \<Rightarrow> except_NotFound name ex (Some u, old_port a, old_data_dir a) w2
                | Inr p \<Rightarrow>
                    (let w3 = log (GetDataDir name) w2 in
                     case get_data_dir en name of
                       Inl ex \<Rightarrow> except_NotFound name ex (Some u, p, old_data_dir a) w3
                     | Inr d \<Rightarrow> (Inr (Some u, p, Some d), w3))))
      | None \<Rightarrow>
          (if old_site_url a = None \<or> old_data_dir a = None
           then (Inl (ValueError
                  (''old-site-url and old-data-dir must be provided,'' @
                   '' when instance is not running and no old-hg-name is provided'' @
                   [newline])), w)
           else (Inr (old_site_url a, old_port a, old_data_dir a), w)))"

subsection \<open>Endpoints (lines 116--123)\<close>

text \<open>\<^verbatim>\<open>str.format\<close> of a value that may be \<^verbatim>\<open>None\<close>, as an f-string does it.\<close>

definition py_format :: "string option \<Rightarrow> string" where
  "py_format v = (case v of None \<Rightarrow> ''None'' | Some s \<Rightarrow> s)"

definition origin_of :: "string option \<Rightarrow> string \<Rightarrow> string option" where
  "origin_of old_site_url' old_port' =
     (if old_port' = ''80'' then old_site_url'
      else Some (py_format old_site_url' @ '':'' @ old_port'))"

definition destination_of :: "string \<Rightarrow> string \<Rightarrow> string" where
  "destination_of new_site_url' new_port' =
     (if new_port' = ''80'' then new_site_url'
      else new_site_url' @ '':'' @ new_port')"

subsection \<open>Stopping the container and taking the backup (lines 125--149)\<close>

text \<open>\<^verbatim>\<open>if old_hg_name is not None: _stop([old_hg_name,], False, False, False)\<close>.
  The container that is stopped may write its files while it shuts down: \<open>stop\<close> returns
  the file system it leaves, and the exception \<^verbatim>\<open>_stop\<close> raises, if any.\<close>

definition stop_container :: "env \<Rightarrow> string option \<Rightarrow> world \<Rightarrow> exn option \<times> world" where
  "stop_container en old_hg_name' w =
     (case old_hg_name' of
        None \<Rightarrow> (None, w)
      | Some name \<Rightarrow>
          (case stop en [name] (files w) of
             (raised, fs) \<Rightarrow> (raised, log (Stop [name]) (w\<lparr>files := fs\<rparr>))))"

text \<open>\<^verbatim>\<open>shutil.copyfile(src, dst)\<close>: raises when the source is missing, otherwise the
  destination gets the content of the source.\<close>

definition copyfile :: "string \<Rightarrow> string \<Rightarrow> world \<Rightarrow> exn option \<times> world" where
  "copyfile src dst w =
     (let w1 = log (CopyFile src dst) w in
      case files w1 src of
        None \<Rightarrow> (Some FileNotFoundError, w1)
      | Some c \<Rightarrow> (None, w1\<lparr>files := (files w1)(dst \<mapsto> c)\<rparr>))"

definition backup :: "env \<Rightarrow> string \<Rightarrow> string \<Rightarrow> world \<Rightarrow> exn option \<times> world" where
  "backup en origin_db_path update_db_path w =
     (let argv = [''sqlite3'', origin_db_path, ''.backup '' @ update_db_path];
          w1 = log (RunProcess argv) w
      in case sp_run en argv (files w1) of
           NotInstalled \<Rightarrow>
             copyfile origin_db_path update_db_path
               (log (Stderr Sqlite3NotInstalled) w1)
         | Exited returncode fs \<Rightarrow>
             (let w2 = log (ProcessExit returncode) (w1\<lparr>files := fs\<rparr>) in
              if returncode \<noteq> 0 then (Some (RuntimeError returncode), w2) else (None, w2)))"

subsection \<open>The SQL statement and what SQLite makes of it (lines 164--168)\<close>

definition db_query :: "string \<Rightarrow> string \<Rightarrow> string" where
  "db_query origin destination =
     [newline] @ ''            UPDATE tilesets_viewconf'' @
     [newline] @ ''            SET viewconf = replace(viewconf,'' @
       [apostrophe] @ origin @ [apostrophe] @ '','' @
       [apostrophe] @ destination @ [apostrophe] @ '')'' @
     [newline] @ ''            ''"

text \<open>
  SQL's \<^verbatim>\<open>replace(X, Y, Z)\<close> as SQLite computes it: \<open>X\<close> is scanned from the left; where
  \<open>Y\<close> starts at the current position, \<open>Z\<close> is emitted and the scan goes on behind that
  occurrence; otherwise one character is copied.  An empty \<open>Y\<close> leaves \<open>X\<close> unchanged.
\<close>

function sql_replace :: "string \<Rightarrow> string \<Rightarrow> string \<Rightarrow> string" where
  "sql_replace [] y z = []"
| "sql_replace (c # cs) y z =
     (if y \<noteq> [] \<and> prefix y (c # cs) then z @ sql_replace (drop (length y) (c # cs)) y z
      else c # sql_replace cs y z)"
  by pat_completeness auto
termination
  by (relation "measure (\<lambda>(x, y, z). length x)") auto

text \<open>
  An SQL string literal: it starts with an apostrophe and ends at the first apostrophe
  that is not doubled; a doubled apostrophe stands for one.  \<open>sql_literal_body\<close> reads
  behind the opening apostrophe and returns the text of the literal and the input left.
\<close>

fun sql_literal_body :: "string \<Rightarrow> (string \<times> string) option" where
  "sql_literal_body [] = None"
| "sql_literal_body [c] = (if c = apostrophe then Some ([], []) else None)"
| "sql_literal_body (c # d # cs) =
     (if c \<noteq> apostrophe then map_option (apfst ((#) c)) (sql_literal_body (d # cs))
      else if d = apostrophe then map_option (apfst ((#) apostrophe)) (sql_literal_body cs)
      else Some ([], d # cs))"

definition sql_literal :: "string \<Rightarrow> (string \<times> string) option" where
  "sql_literal s =
     (case s of
        [] \<Rightarrow> None
      | c # cs \<Rightarrow> if c = apostrophe then sql_literal_body cs else None)"

definition query_head :: string where
  "query_head =
     [newline] @ ''            UPDATE tilesets_viewconf'' @
     [newline] @ ''            SET viewconf = replace(viewconf,''"

definition query_tail :: string where
  "query_tail = '')'' @ [newline] @ ''            ''"

text \<open>
  \<^verbatim>\<open>cur.execute\<close> hands the statement to SQLite as UTF-8.  A text with a lone surrogate
  (here: bytes that are not well-formed UTF-8) cannot be encoded and raises
  \<^verbatim>\<open>UnicodeEncodeError\<close>; an encoded text with a NUL character raises
  \<^verbatim>\<open>ProgrammingError\<close>.  Both happen before SQLite sees the statement.
  \<open>utf8_encodable\<close> is well-formedness of a byte sequence as UTF-8: one byte below
  \<^verbatim>\<open>0x80\<close>; a lead byte \<^verbatim>\<open>C2..DF\<close>, \<^verbatim>\<open>E0..EF\<close> or \<^verbatim>\<open>F0..F4\<close> with one, two or three
  continuation bytes \<^verbatim>\<open>80..BF\<close>, without overlong forms, surrogates, or code points
  beyond \<^verbatim>\<open>U+10FFFF\<close>.
\<close>

definition byte :: "char \<Rightarrow> nat" where
  "byte c = of_char c"

definition continuation :: "char \<Rightarrow> bool" where
  "continuation c = (0x80 \<le> byte c \<and> byte c \<le> 0xBF)"

fun utf8_encodable :: "string \<Rightarrow> bool" where
  "utf8_encodable [] = True"
| "utf8_encodable (b0 # bs) =
     (if byte b0 < 0x80 then utf8_encodable bs
      else if 0xC2 \<le> byte b0 \<and> byte b0 \<le> 0xDF then
        (case bs of
           b1 # r \<Rightarrow> continuation b1 \<and> utf8_encodable r
         | _ \<Rightarrow> False)
      else if 0xE0 \<le> byte b0 \<and> byte b0 \<le> 0xEF then
        (case bs of
           b1 # b2 # r \<Rightarrow>
             continuation b1 \<and> continuation b2
             \<and> (byte b0 = 0xE0 \<longrightarrow> 0xA0 \<le> byte b1)
             \<and> (byte b0 = 0xED \<longrightarrow> byte b1 \<le> 0x9F)
             \<and> utf8_encodable r
         | _ \<Rightarrow> False)
      else if 0xF0 \<le> byte b0 \<and> byte b0 \<le> 0xF4 then
        (case bs of
           b1 # b2 # b3 # r \<Rightarrow>
             continuation b1 \<and> continuation b2 \<and> continuation b3
             \<and> (byte b0 = 0xF0 \<longrightarrow> 0x90 \<le> byte b1)
             \<and> (byte b0 = 0xF4 \<longrightarrow> byte b1 \<le> 0x8F)
             \<and> utf8_encodable r
         | _ \<Rightarrow> False)
      else False)"

definition statement_error :: "string \<Rightarrow> exn option" where
  "statement_error q =
     (if \<not> utf8_encodable q then Some UnicodeEncodeError
      else if CHR 0x00 \<in> set q then Some ProgrammingError
      else None)"

text \<open>A text that \<^verbatim>\<open>cur.execute\<close> can hand to SQLite when it stands in a statement.\<close>

definition encodable_text :: "string \<Rightarrow> bool" where
  "encodable_text s = (utf8_encodable s \<and> CHR 0x00 \<notin> set s)"

text \<open>
  The statements \<^verbatim>\<open>UPDATE tilesets_viewconf SET viewconf = replace(viewconf,'Y','Z')\<close>
  in the layout of \<open>db_query\<close>: \<open>parse_update\<close> returns the two literals \<open>(Y, Z)\<close> as SQLite
  reads them, and \<open>None\<close> for every other text and for a text that never reaches SQLite.
\<close>

definition parse_update :: "string \<Rightarrow> (string \<times> string) option" where
  "parse_update q =
     (if statement_error q \<noteq> None then None
      else if \<not> prefix query_head q then None
      else
        (case sql_literal (drop (length query_head) q) of
           None \<Rightarrow> None
         | Some (y, r1) \<Rightarrow>
             (case r1 of
                [] \<Rightarrow> None
              | c # r2 \<Rightarrow>
                  (if c \<noteq> CHR '','' then None
                   else
                     (case sql_literal r2 of
                        None \<Rightarrow> None
                      | Some (z, r3) \<Rightarrow> (if r3 = query_tail then Some (y, z) else None))))))"

text \<open>
  The \<^verbatim>\<open>UPDATE\<close> visits the rows in order.  A storage fault at row \<open>i\<close>
  (\<open>write_fault\<close>, for instance a full disk) raises with the rows before \<open>i\<close> already
  rewritten in the open transaction.
\<close>

fun update_rows ::
  "(nat \<Rightarrow> bool) \<Rightarrow> (string \<Rightarrow> string) \<Rightarrow> nat \<Rightarrow> string list \<Rightarrow> exn option \<times> string list" where
  "update_rows fault f i [] = (None, [])"
| "update_rows fault f i (r # rs) =
     (if fault i then (Some SqliteError, r # rs)
      else (case update_rows fault f (Suc i) rs of (e, rs') \<Rightarrow> (e, f r # rs')))"

text \<open>\<^verbatim>\<open>cur.execute(db_query)\<close> on the rows of the table.  A text that cannot be handed
  to SQLite raises and leaves the rows alone; a text that SQLite gets and that is not an
  \<^verbatim>\<open>UPDATE\<close> of the expected form is left to \<open>sqlite_other\<close>.\<close>

definition execute :: "env \<Rightarrow> string \<Rightarrow> string list \<Rightarrow> exn option \<times> string list" where
  "execute en q rows =
     (case statement_error q of
        Some ex \<Rightarrow> (Some ex, rows)
      | None \<Rightarrow>
          (case parse_update q of
             Some (y, z) \<Rightarrow>
               update_rows (write_fault en) (\<lambda>viewconf. sql_replace viewconf y z) 0 rows
           | None \<Rightarrow>
               (case sqlite_other en q rows of
                  Inl ex \<Rightarrow> (Some ex, rows)
                | Inr rows' \<Rightarrow> (None, rows'))))"

subsection \<open>Rewriting the copy (lines 156--174) and the report (lines 178--183)\<close>

text \<open>
  \<^verbatim>\<open>sqlite3.connect\<close> creates an empty file where there is none.  \<^verbatim>\<open>with conn:\<close>
  commits the open transaction when its body returns and rolls it back when the body
  raises; the exception then leaves the function, before \<^verbatim>\<open>conn.close()\<close>.
\<close>

definition rewrite :: "env \<Rightarrow> string \<Rightarrow> string \<Rightarrow> string \<Rightarrow> world \<Rightarrow> exn option \<times> world" where
  "rewrite en update_db_path origin destination w =
     (let w1 = log (Connect update_db_path) w in
      if connect_fails en update_db_path
      then (Some (SystemExit (- 1)), log (Stderr (FailedToConnect update_db_path)) w1)
      else
        (let w2 = (case files w1 update_db_path of
                     None \<Rightarrow> w1\<lparr>files := (files w1)(update_db_path \<mapsto> Unusable [])\<rparr>
                   | Some c \<Rightarrow> w1);
             db_query' = db_query origin destination;
             w3 = log (Execute db_query') w2
         in case files w3 update_db_path of
              Some (Store rows) \<Rightarrow>
                (case execute en db_query' rows of
                   (Some ex, pending) \<Rightarrow> (Some ex, log Rollback w3)
                 | (None, pending) \<Rightarrow>
                     (if commit_fault en then (Some SqliteError, log Rollback w3)
                      else (None,
                            log CloseConn (log Commit
                              (w3\<lparr>files := (files w3)(update_db_path \<mapsto> Store pending)\<rparr>)))))
            | _ \<Rightarrow> (Some SqliteError, log Rollback w3)))"

definition report :: "string \<Rightarrow> world \<Rightarrow> world" where
  "report update_db_path w = log (Stderr (ReadyForMigration update_db_path)) w"

subsection \<open>The command\<close>

definition update_viewconfs :: "env \<Rightarrow> args \<Rightarrow> world \<Rightarrow> exn option \<times> world" where
  "update_viewconfs en a w =
     (case resolve_origin en a w of
        (Inl ex, w1) \<Rightarrow> (Some ex, w1)
      | (Inr (old_site_url', old_port', old_data_dir'), w1) \<Rightarrow>
          (let origin = origin_of old_site_url' old_port';
               destination = destination_of (new_site_url a) (new_port a)
           in case old_data_dir' of
                None \<Rightarrow> (Some TypeError, w1)
              | Some d \<Rightarrow>
                  (let origin_db_path = op_join d (SQLITEDB en);
                       update_db_path = op_join d (SQLITEDB en @ ''.updated'')
                   in case stop_container en (old_hg_name a) w1 of
                        (Some ex, w2) \<Rightarrow> (Some ex, w2)
                      | (None, w2) \<Rightarrow>
                          (case backup en origin_db_path update_db_path w2 of
                             (Some ex, w3) \<Rightarrow> (Some ex, w3)
                           | (None, w3) \<Rightarrow>
                               (case rewrite en update_db_path (py_format origin) destination w3 of
                                  (Some ex, w4) \<Rightarrow> (Some ex, w4)
                                | (None, w4) \<Rightarrow> (None, report update_db_path w4))))))"

text \<open>The exit status of the process: \<open>0\<close> when the function returns, the argument of
  \<^verbatim>\<open>sys.exit\<close> modulo 256, and \<open>1\<close> for an exception that nothing catches.\<close>

definition exit_status :: "exn option \<Rightarrow> int" where
  "exit_status r =
     (case r of
        None \<Rightarrow> 0
      | Some (SystemExit n) \<Rightarrow> n mod 256
      | Some _ \<Rightarrow> 1)"

subsection \<open>Phases, joined strings, and a sample deployment\<close>

text \<open>The phase an event belongs to: 0 resolve, 1 stop, 2 backup, 3 rewrite, 4 report.\<close>

fun phase_of :: "event \<Rightarrow> nat" where
  "phase_of (GetSiteUrl n) = 0"
| "phase_of (GetPort n) = 0"
| "phase_of (GetDataDir n) = 0"
| "phase_of (Stderr (InstanceNotRunning n)) = 0"
| "phase_of (Stop ns) = 1"
| "phase_of (RunProcess argv) = 2"
| "phase_of (ProcessExit returncode) = 2"
| "phase_of (CopyFile src dst) = 2"
| "phase_of (Stderr Sqlite3NotInstalled) = 2"
| "phase_of (Connect p) = 3"
| "phase_of (Execute q) = 3"
| "phase_of Commit = 3"
| "phase_of Rollback = 3"
| "phase_of CloseConn = 3"
| "phase_of (Stderr (FailedToConnect p)) = 3"
| "phase_of (Stderr (ReadyForMigration p)) = 4"

text \<open>The events one run of the command appends to the trace.\<close>

definition run_events :: "env \<Rightarrow> args \<Rightarrow> world \<Rightarrow> event list" where
  "run_events en a w = drop (length (trace w)) (trace (snd (update_viewconfs en a w)))"

text \<open>\<open>join sep segs\<close> is Python's \<^verbatim>\<open>sep.join(segs)\<close>: the segments with \<open>sep\<close> between
  neighbours.  It states what a replacement of every occurrence is.\<close>

fun join :: "string \<Rightarrow> string list \<Rightarrow> string" where
  "join sep [] = []"
| "join sep [s] = s"
| "join sep (s # t # ss) = s @ sep @ join sep (t # ss)"

text \<open>
  \<open>leftmost_segments y segs\<close>: the segments \<open>segs\<close> are what lies between the occurrences
  of \<open>y\<close> that a scan from the left finds, one after the end of the other.  No occurrence
  of \<open>y\<close> starts inside a segment that an occurrence follows (so that occurrence is the
  first one the scan meets), and the last segment contains none.
\<close>

fun leftmost_segments :: "string \<Rightarrow> string list \<Rightarrow> bool" where
  "leftmost_segments y [] = False"
| "leftmost_segments y [s] = (\<not> sublist y s)"
| "leftmost_segments y (s # t # ss) =
     (\<not> sublist y (s @ butlast y) \<and> leftmost_segments y (t # ss))"

text \<open>The files as the stop request leaves them (lines 130--131).\<close>

definition stopped_files :: "env \<Rightarrow> args \<Rightarrow> filesystem \<Rightarrow> filesystem" where
  "stopped_files en a fs =
     (case old_hg_name a of
        None \<Rightarrow> fs
      | Some name \<Rightarrow> snd (stop en [name] fs))"

text \<open>
  A sample environment for the closed instances below: one running deployment
  \<^verbatim>\<open>hg\<close>, an \<^verbatim>\<open>sqlite3\<close> executable that copies a database to the file named after
  \<^verbatim>\<open>.backup\<close>, and a storage layer without faults.
\<close>

definition sqlite3_backup :: "string list \<Rightarrow> filesystem \<Rightarrow> proc_result" where
  "sqlite3_backup argv fs =
     (case argv of
        [exe, src, cmd] \<Rightarrow>
          (case fs src of
             Some (Store rows) \<Rightarrow> Exited 0 (fs(drop 8 cmd \<mapsto> Store rows))
           | _ \<Rightarrow> Exited 1 fs)
      | _ \<Rightarrow> Exited 1 fs)"

definition sample_env :: env where
  "sample_env =
     \<lparr>get_site_url = (\<lambda>n. if n = ''hg'' then Inr ''http://old'' else Inl NotFound),
      get_port = (\<lambda>n. if n = ''hg'' then Inr ''8000'' else Inl NotFound),
      get_data_dir = (\<lambda>n. if n = ''hg'' then Inr ''/d'' else Inl NotFound),
      SQLITEDB = ''db'',
      stop = (\<lambda>ns fs. (None, fs)),
      sp_run = sqlite3_backup,
      connect_fails = (\<lambda>p. False),
      write_fault = (\<lambda>i. False),
      commit_fault = False,
      sqlite_other = (\<lambda>q rows. Inl SqliteError)\<rparr>"

definition sample_world :: world where
  "sample_world = \<lparr>files = [''/d/db'' \<mapsto> Store [''u=http://old:8000/t'', ''{}'']], trace = []\<rparr>"

definition sample_args :: args where
  "sample_args =
     \<lparr>old_hg_name = Some ''hg'', old_site_url = None, old_port = old_port_option None,
      old_data_dir = None, new_site_url = ''http://new'', new_port = new_port_option None\<rparr>"

text \<open>The copy of the sample database as the backup leaves it, and a copy whose two
  records are \<^verbatim>\<open>a''b\<close> and \<^verbatim>\<open>a'b\<close> (apostrophes as written here).\<close>

definition sample_snapshot :: world where
  "sample_snapshot =
     \<lparr>files = [''/d/db.updated'' \<mapsto> Store [''u=http://old:8000/t'', ''{}'']], trace = []\<rparr>"

definition doubled_origin :: string where
  "doubled_origin = ''a'' @ [apostrophe, apostrophe] @ ''b''"

definition merged_origin :: string where
  "merged_origin = ''a'' @ [apostrophe] @ ''b''"

definition doubled_snapshot :: world where
  "doubled_snapshot =
     \<lparr>files = [''/d/db.updated'' \<mapsto> Store [doubled_origin, merged_origin]], trace = []\<rparr>"

text \<open>A copy with one record in which the origin \<^verbatim>\<open>aa\<close> overlaps itself.\<close>

definition overlap_snapshot :: world where
  "overlap_snapshot = \<lparr>files = [''/d/db.updated'' \<mapsto> Store [''aaa'']], trace = []\<rparr>"

text \<open>An origin that is one byte which is not UTF-8 (on the command line: a site URL with
  that byte), and a copy with a record that contains it.\<close>

definition undecodable_origin :: string where
  "undecodable_origin = [CHR 0xFF]"

definition undecodable_snapshot :: world where
  "undecodable_snapshot =
     \<lparr>files = [''/d/db.updated'' \<mapsto> Store [''u='' @ undecodable_origin]], trace = []\<rparr>"

text \<open>
  An \<^verbatim>\<open>sqlite3\<close> process that writes the database it is given to read before it copies
  it, as SQLite does when it finds a hot journal beside the database and rolls the
  interrupted transaction back: here the last record is the one rolled back.
\<close>

definition sqlite3_recovering :: "string list \<Rightarrow> filesystem \<Rightarrow> proc_result" where
  "sqlite3_recovering argv fs =
     (case argv of
        [exe, src, cmd] \<Rightarrow>
          (case fs src of
             Some (Store rows) \<Rightarrow>
               Exited 0 (fs(src \<mapsto> Store (butlast rows), drop 8 cmd \<mapsto> Store (butlast rows)))
           | _ \<Rightarrow> Exited 1 fs)
      | _ \<Rightarrow> Exited 1 fs)"

section \<open>Properties\<close>

subsection \<open>The SQL function, the literals and the row loop\<close>

lemma sql_replace_empty_pattern: "sql_replace x [] z = x"
  by (induction x) simp_all

lemma sql_replace_absent: "\<not> sublist y x \<Longrightarrow> sql_replace x y z = x"
proof (induction x y z rule: sql_replace.induct)
  case (1 y z)
  then show ?case by simp
next
  case (2 c cs y z)
  from "2.prems" have np: "\<not> prefix y (c # cs)" and ns: "\<not> sublist y cs"
    by (simp_all add: sublist_Cons_right)
  with "2.IH"(2) show ?case by simp
qed

lemma join_Cons_nonempty: "ss \<noteq> [] \<Longrightarrow> join sep (s # ss) = s @ sep @ join sep ss"
  by (cases ss) simp_all

lemma pattern_not_in_butlast: "y \<noteq> [] \<Longrightarrow> \<not> sublist y (butlast y)"
proof
  assume "y \<noteq> []" and "sublist y (butlast y)"
  then have "length y \<le> length (butlast y)" by (intro sublist_length_le)
  moreover have "length (butlast y) = length y - 1" by simp
  moreover have "0 < length y" using \<open>y \<noteq> []\<close> by simp
  ultimately show False by arith
qed

lemma leftmost_segments_nonempty: "leftmost_segments y segs \<Longrightarrow> segs \<noteq> []"
  by (cases segs) simp_all

lemma leftmost_segments_free: "leftmost_segments y segs \<Longrightarrow> \<forall>s\<in>set segs. \<not> sublist y s"
  by (induction y segs rule: leftmost_segments.induct) (auto simp: sublist_append)

lemma sql_replace_segments:
  assumes "y \<noteq> []"
  shows "\<exists>segs. leftmost_segments y segs \<and> x = join y segs \<and> sql_replace x y z = join z segs"
  using assms
proof (induction x y z rule: sql_replace.induct)
  case (1 y z)
  then have "leftmost_segments y [[]] \<and> [] = join y [[]] \<and> sql_replace [] y z = join z [[]]"
    by simp
  then show ?case by blast
next
  case (2 c cs y z)
  show ?case
  proof (cases "prefix y (c # cs)")
    case True
    with "2.IH"(1) "2.prems" obtain segs where segs: "leftmost_segments y segs"
      "drop (length y) (c # cs) = join y segs"
      "sql_replace (drop (length y) (c # cs)) y z = join z segs"
      by blast
    from segs(1) obtain t ss where tss: "segs = t # ss"
      by (cases segs) simp_all
    from True have split: "c # cs = y @ drop (length y) (c # cs)"
      by (metis append_eq_conv_conj prefix_def)
    have "leftmost_segments y ([] # segs)"
      using segs(1) tss pattern_not_in_butlast [OF "2.prems"] by simp
    moreover have "c # cs = join y ([] # segs)"
      using segs(2) tss split by simp
    moreover have "sql_replace (c # cs) y z = join z ([] # segs)"
      using True "2.prems" segs(3) tss by simp
    ultimately show ?thesis by blast
  next
    case False
    with "2.IH"(2) "2.prems" obtain segs where segs: "leftmost_segments y segs"
      "cs = join y segs" "sql_replace cs y z = join z segs"
      by blast
    from segs(1) obtain s ss where sss: "segs = s # ss"
      by (cases segs) simp_all
    have left: "leftmost_segments y ((c # s) # ss)"
    proof (cases ss)
      case Nil
      with segs(1,2) sss False show ?thesis
        by (simp add: sublist_Cons_right)
    next
      case (Cons t ss')
      have y: "y = butlast y @ [last y]"
        using "2.prems" by simp
      have "c # cs = (c # s @ butlast y) @ (last y # join y (t # ss'))"
        using segs(2) sss Cons y by (metis append.assoc append_Cons append_Nil join.simps(3))
      then have "prefix (c # s @ butlast y) (c # cs)"
        by (metis prefixI)
      with False have "\<not> prefix y (c # s @ butlast y)"
        by (meson prefix_order.order_trans)
      with segs(1) sss Cons show ?thesis
        by (simp add: sublist_Cons_right)
    qed
    moreover have "c # cs = join y ((c # s) # ss)"
      using segs(2) sss by (cases ss) simp_all
    moreover have "sql_replace (c # cs) y z = join z ((c # s) # ss)"
      using False segs(3) sss by (cases ss) simp_all
    ultimately show ?thesis by blast
  qed
qed

lemma sql_replace_leftmost_occurrence:
  assumes "y \<noteq> []"
  shows "\<not> sublist y (s @ butlast y) \<Longrightarrow> sql_replace (s @ y @ r) y z = s @ z @ sql_replace r y z"
proof (induction s)
  case Nil
  from assms obtain a y' where y: "y = a # y'" by (cases y) auto
  then show ?case by simp
next
  case (Cons c s)
  have yl: "y = butlast y @ [last y]"
    using assms by simp
  from Cons.prems have np: "\<not> prefix y (c # s @ butlast y)"
    and ns: "\<not> sublist y (s @ butlast y)"
    by (simp_all add: sublist_Cons_right)
  have "\<not> prefix y (c # s @ y @ r)"
  proof
    assume p: "prefix y (c # s @ y @ r)"
    have "c # s @ y @ r = (c # s @ butlast y) @ (last y # r)"
      using yl by (metis append.assoc append_Cons append_Nil)
    then have "prefix (c # s @ butlast y) (c # s @ y @ r)"
      by (metis prefixI)
    moreover have "length y \<le> length (c # s @ butlast y)"
      using assms by (cases y) auto
    ultimately have "prefix y (c # s @ butlast y)"
      using p by (meson prefix_length_prefix)
    with np show False by contradiction
  qed
  then show ?case
    using Cons.IH [OF ns] by simp
qed

lemma sql_replace_determined:
  "y \<noteq> [] \<Longrightarrow> leftmost_segments y segs \<Longrightarrow> sql_replace (join y segs) y z = join z segs"
proof (induction y segs rule: leftmost_segments.induct)
  case (1 y)
  then show ?case by simp
next
  case (2 y s)
  then show ?case by (simp add: sql_replace_absent)
next
  case (3 y s t ss)
  from "3.prems"(2) have a: "\<not> sublist y (s @ butlast y)"
    and b: "leftmost_segments y (t # ss)"
    by simp_all
  have "sql_replace (join y (s # t # ss)) y z = sql_replace (s @ y @ join y (t # ss)) y z"
    by simp
  also have "\<dots> = s @ z @ sql_replace (join y (t # ss)) y z"
    by (rule sql_replace_leftmost_occurrence [OF "3.prems"(1) a])
  also have "\<dots> = s @ z @ join z (t # ss)"
    using "3.IH" [OF "3.prems"(1) b] by simp
  finally show ?case by simp
qed

lemma sql_literal_body_plain:
  assumes "apostrophe \<notin> set s" and "r = [] \<or> hd r \<noteq> apostrophe"
  shows "sql_literal_body (s @ apostrophe # r) = Some (s, r)"
  using assms
proof (induction s)
  case Nil
  then show ?case by (cases r) simp_all
next
  case (Cons a s)
  obtain d cs where dcs: "s @ apostrophe # r = d # cs"
    by (cases s) simp_all
  have "sql_literal_body (a # d # cs) = map_option (apfst ((#) a)) (sql_literal_body (d # cs))"
    using Cons.prems(1) by auto
  with Cons dcs show ?case by simp
qed

lemma sql_literal_plain:
  assumes "apostrophe \<notin> set s" and "r = [] \<or> hd r \<noteq> apostrophe"
  shows "sql_literal (apostrophe # s @ apostrophe # r) = Some (s, r)"
  using sql_literal_body_plain [OF assms] by (simp add: sql_literal_def)

lemma db_query_layout:
  "db_query origin destination =
     query_head @ apostrophe # origin @ apostrophe # CHR '','' # apostrophe # destination
       @ apostrophe # query_tail"
  by (simp add: db_query_def query_head_def query_tail_def)

lemma utf8_encodable_ascii: "\<forall>c\<in>set s. byte c < 0x80 \<Longrightarrow> utf8_encodable s"
  by (induction s) auto

lemma utf8_encodable_ascii_prefix:
  "\<forall>c\<in>set a. byte c < 0x80 \<Longrightarrow> utf8_encodable (a @ s) = utf8_encodable s"
  by (induction a) auto

lemma ascii_no_continuation: "byte c < 0x80 \<Longrightarrow> \<not> continuation c"
  by (simp add: continuation_def)

lemma utf8_encodable_ascii_split:
  assumes c: "byte c < 0x80"
  shows "utf8_encodable (s @ c # r) = (utf8_encodable s \<and> utf8_encodable r)"
proof (induction s rule: utf8_encodable.induct)
  case 1
  from c show ?case by simp
next
  case (2 b0 bs)
  note nc = ascii_no_continuation [OF c]
  consider (one) "byte b0 < 0x80"
    | (two) "\<not> byte b0 < 0x80" "0xC2 \<le> byte b0 \<and> byte b0 \<le> 0xDF"
    | (three) "\<not> byte b0 < 0x80" "\<not> (0xC2 \<le> byte b0 \<and> byte b0 \<le> 0xDF)"
        "0xE0 \<le> byte b0 \<and> byte b0 \<le> 0xEF"
    | (four) "\<not> byte b0 < 0x80" "\<not> (0xC2 \<le> byte b0 \<and> byte b0 \<le> 0xDF)"
        "\<not> (0xE0 \<le> byte b0 \<and> byte b0 \<le> 0xEF)" "0xF0 \<le> byte b0 \<and> byte b0 \<le> 0xF4"
    | (none) "\<not> byte b0 < 0x80" "\<not> (0xC2 \<le> byte b0 \<and> byte b0 \<le> 0xDF)"
        "\<not> (0xE0 \<le> byte b0 \<and> byte b0 \<le> 0xEF)" "\<not> (0xF0 \<le> byte b0 \<and> byte b0 \<le> 0xF4)"
    by blast
  then show ?case
  proof cases
    case one
    with "2.IH"(1) show ?thesis by simp
  next
    case two
    show ?thesis
    proof (cases bs)
      case Nil
      with two nc show ?thesis by (simp split: list.splits)
    next
      case (Cons b1 t)
      with two "2.IH"(2) [OF two Cons] show ?thesis by simp
    qed
  next
    case three
    show ?thesis
    proof (cases bs)
      case Nil
      with three nc show ?thesis by (simp split: list.splits)
    next
      case b1: (Cons b1 t)
      show ?thesis
      proof (cases t)
        case Nil
        with three nc b1 show ?thesis by (simp split: list.splits)
      next
        case (Cons b2 t2)
        with three b1 "2.IH"(3) [OF three b1 Cons] show ?thesis by simp
      qed
    qed
  next
    case four
    show ?thesis
    proof (cases bs)
      case Nil
      with four nc show ?thesis by (simp split: list.splits)
    next
      case b1: (Cons b1 t)
      show ?thesis
      proof (cases t)
        case Nil
        with four nc b1 show ?thesis by (simp split: list.splits)
      next
        case b2: (Cons b2 t2)
        show ?thesis
        proof (cases t2)
          case Nil
          with four nc b1 b2 show ?thesis by (simp split: list.splits)
        next
          case (Cons b3 t3)
          with four b1 b2 "2.IH"(4) [OF four b1 b2 Cons] show ?thesis by simp
        qed
      qed
    qed
  next
    case none
    then have "\<not> utf8_encodable ((b0 # bs) @ c # r)" "\<not> utf8_encodable (b0 # bs)"
      by auto
    then show ?thesis by blast
  qed
qed

lemma query_ascii:
  "\<forall>c\<in>set query_head. byte c < 0x80" "\<forall>c\<in>set query_tail. byte c < 0x80"
  "byte apostrophe < 0x80" "byte (CHR '','') < 0x80"
  by (simp_all add: query_head_def query_tail_def byte_def apostrophe_def newline_def)

lemma utf8_encodable_db_query:
  "utf8_encodable (db_query origin destination)
     = (utf8_encodable origin \<and> utf8_encodable destination)"
proof -
  have "utf8_encodable (db_query origin destination)
      = utf8_encodable ([] @ apostrophe # origin @ apostrophe # [] @ CHR '','' # [] @ apostrophe #
          destination @ apostrophe # query_tail)"
    unfolding db_query_layout by (simp add: utf8_encodable_ascii_prefix [OF query_ascii(1)])
  also have "\<dots> = (utf8_encodable origin \<and> utf8_encodable destination)"
    unfolding utf8_encodable_ascii_split [OF query_ascii(3)]
      utf8_encodable_ascii_split [OF query_ascii(4)]
    by (simp add: utf8_encodable_ascii [OF query_ascii(2)])
  finally show ?thesis .
qed

lemma nul_db_query:
  "CHR 0x00 \<in> set (db_query origin destination)
     = (CHR 0x00 \<in> set origin \<or> CHR 0x00 \<in> set destination)"
  by (auto simp: db_query_def apostrophe_def newline_def)

lemma statement_error_None: "(statement_error q = None) = encodable_text q"
  by (simp add: statement_error_def encodable_text_def)

lemma encodable_text_db_query:
  "encodable_text (db_query origin destination)
     = (encodable_text origin \<and> encodable_text destination)"
  by (auto simp: encodable_text_def utf8_encodable_db_query nul_db_query)

lemma encodable_text_ascii: "\<forall>c\<in>set s. 0 < byte c \<and> byte c < 0x80 \<Longrightarrow> encodable_text s"
  by (auto simp: encodable_text_def utf8_encodable_ascii byte_def)

lemma parse_update_db_query:
  assumes "apostrophe \<notin> set origin" and "apostrophe \<notin> set destination"
    and "encodable_text origin" and "encodable_text destination"
  shows "parse_update (db_query origin destination) = Some (origin, destination)"
proof -
  have c: "CHR '','' \<noteq> apostrophe" by (simp add: apostrophe_def)
  have t: "query_tail = [] \<or> hd query_tail \<noteq> apostrophe"
    by (simp add: query_tail_def apostrophe_def)
  have e: "statement_error (db_query origin destination) = None"
    using assms(3,4) by (simp add: statement_error_None encodable_text_db_query)
  have l1: "sql_literal (apostrophe # origin @ apostrophe # CHR '','' # apostrophe # destination
       @ apostrophe # query_tail) = Some (origin, CHR '','' # apostrophe # destination
       @ apostrophe # query_tail)"
    using sql_literal_plain [OF assms(1), of "CHR '','' # apostrophe # destination
       @ apostrophe # query_tail"] c by simp
  have l2: "sql_literal (apostrophe # destination @ apostrophe # query_tail)
      = Some (destination, query_tail)"
    using sql_literal_plain [OF assms(2) t] .
  have "parse_update (query_head @ apostrophe # origin @ apostrophe # CHR '','' # apostrophe #
      destination @ apostrophe # query_tail) = Some (origin, destination)"
    unfolding parse_update_def
    using l1 l2 e [unfolded db_query_layout] by simp
  then show ?thesis
    unfolding db_query_layout .
qed

lemma parse_update_accepted: "parse_update q = Some yz \<Longrightarrow> encodable_text q"
  by (auto simp: parse_update_def statement_error_None split: if_splits)

lemma execute_returns_accepted: "execute en q rows = (None, rows') \<Longrightarrow> encodable_text q"
  by (auto simp: execute_def statement_error_None [symmetric] split: option.splits)

lemma update_rows_complete:
  "update_rows fault f i rows = (None, rows') \<Longrightarrow> rows' = map f rows"
  by (induction rows arbitrary: i rows') (auto split: if_splits prod.splits)

lemma update_rows_no_fault:
  "(\<forall>j<length rows. \<not> fault (i + j)) \<Longrightarrow> update_rows fault f i rows = (None, map f rows)"
proof (induction rows arbitrary: i)
  case Nil
  then show ?case by simp
next
  case (Cons r rows)
  have "\<forall>j<length rows. \<not> fault (Suc i + j)"
    using Cons.prems by auto
  then have "update_rows fault f (Suc i) rows = (None, map f rows)"
    by (rule Cons.IH)
  moreover have "\<not> fault i" using Cons.prems by force
  ultimately show ?case by simp
qed

subsection \<open>Endpoints\<close>

lemma destination_no_appended_80:
  assumes "\<not> suffix '':80'' url" and "\<not> suffix '':80'' port"
  shows "\<not> suffix '':80'' (destination_of url port)"
  using assms
  by (auto simp: destination_of_def suffix_append suffix_Cons Cons_eq_append_conv)

text \<open>
  C4 (amended).  A port option that is left out and the port \<^verbatim>\<open>"80"\<close> give the same
  endpoint, the site URL itself; every other port gives \<^verbatim>\<open>url + ":" + port\<close>; origin and
  destination follow the same rule.  The endpoint ends in \<^verbatim>\<open>:80\<close> only when the site URL
  or the port given already does: nothing is stripped from the URL.
\<close>

theorem endpoint_rule:
  "origin_of (Some url) (old_port_option (Some ''80'')) = origin_of (Some url) (old_port_option None)
   \<and> destination_of url (new_port_option (Some ''80'')) = destination_of url (new_port_option None)
   \<and> destination_of url (new_port_option None) = url
   \<and> (port \<noteq> ''80'' \<longrightarrow> destination_of url port = url @ '':'' @ port)
   \<and> origin_of (Some url) port = Some (destination_of url port)
   \<and> (\<not> suffix '':80'' url \<and> \<not> suffix '':80'' port \<longrightarrow> \<not> suffix '':80'' (destination_of url port))"
  using destination_no_appended_80 [of url port]
  by (simp add: origin_of_def destination_of_def old_port_option_def new_port_option_def
      py_format_def)

theorem endpoint_rule_witness:
  "''8000'' \<noteq> ''80'' \<and> \<not> suffix '':80'' ''http://old'' \<and> \<not> suffix '':80'' ''8000''
   \<and> destination_of ''http://old'' ''8000'' = ''http://old:8000''
   \<and> origin_of (Some ''http://old'') ''8000'' = Some ''http://old:8000''
   \<and> \<not> suffix '':80'' (destination_of ''http://old'' ''8000'')"
proof -
  have h: "\<not> suffix '':80'' ''http://old'' \<and> \<not> suffix '':80'' ''8000''"
    by (simp add: suffix_Cons)
  from endpoint_rule [of "''http://old''" "''8000''"] h show ?thesis
    by (simp add: destination_of_def)
qed

text \<open>The claim as written fails: a site URL that itself ends in \<^verbatim>\<open>:80\<close> is returned as
  it is when the port is left at its default.\<close>

theorem endpoint_trailing_80_counterexample:
  "suffix '':80'' (destination_of ''http://localhost:80'' (new_port_option None))
   \<and> origin_of (Some ''http://localhost:80'') (old_port_option None) = Some ''http://localhost:80''"
  by (simp add: destination_of_def origin_of_def new_port_option_def old_port_option_def
      suffix_def)

subsection \<open>Resolution\<close>

text \<open>
  C7.  Without a deployment name, a missing old site URL or a missing old data directory
  makes the command raise \<^verbatim>\<open>ValueError\<close> at once: the world (files and trace) is what it
  was, so nothing was stopped, copied or written, and the exit status is not zero.
\<close>

theorem missing_origin_facts_raise:
  assumes "old_hg_name a = None" and "old_site_url a = None \<or> old_data_dir a = None"
  shows "(\<exists>msg. update_viewconfs en a w = (Some (ValueError msg), w))
         \<and> run_events en a w = []
         \<and> exit_status (fst (update_viewconfs en a w)) \<noteq> 0"
  using assms
  by (auto simp: update_viewconfs_def resolve_origin_def run_events_def exit_status_def)

theorem missing_origin_facts_raise_witness:
  "old_hg_name (sample_args\<lparr>old_hg_name := None\<rparr>) = None
   \<and> old_data_dir (sample_args\<lparr>old_hg_name := None\<rparr>) = None
   \<and> snd (update_viewconfs sample_env (sample_args\<lparr>old_hg_name := None\<rparr>) sample_world) = sample_world
   \<and> run_events sample_env (sample_args\<lparr>old_hg_name := None\<rparr>) sample_world = []
   \<and> exit_status (fst (update_viewconfs sample_env (sample_args\<lparr>old_hg_name := None\<rparr>) sample_world)) \<noteq> 0"
proof -
  have h: "old_hg_name (sample_args\<lparr>old_hg_name := None\<rparr>) = None"
    "old_site_url (sample_args\<lparr>old_hg_name := None\<rparr>) = None
     \<or> old_data_dir (sample_args\<lparr>old_hg_name := None\<rparr>) = None"
    by (simp_all add: sample_args_def)
  from missing_origin_facts_raise [OF h, of sample_env sample_world] h show ?thesis
    by (auto simp: sample_args_def)
qed

text \<open>
  C6 (the code departs from the claim).  When a deployment name is given and the registry
  raises for it, the \<^verbatim>\<open>except\<close> clause names \<^verbatim>\<open>docker\<close>, which the module never imports:
  the command ends with \<^verbatim>\<open>NameError\<close> after the first query.  Nothing is written to
  the diagnostic stream by the command, and explicit values do not let the run go on.
\<close>

theorem lookup_failure_is_name_error:
  assumes "old_hg_name a = Some n" and "get_site_url en n = Inl ex"
  shows "update_viewconfs en a w = (Some (NameError ''docker''), log (GetSiteUrl n) w)
         \<and> run_events en a w = [GetSiteUrl n]"
  using assms
  by (simp add: update_viewconfs_def resolve_origin_def except_NotFound_def module_globals_def
      run_events_def log_def)

theorem lookup_failure_is_name_error_witness:
  "update_viewconfs sample_env
     (sample_args\<lparr>old_hg_name := Some ''gone'', old_site_url := Some ''http://old'',
        old_data_dir := Some ''/d''\<rparr>) sample_world
   = (Some (NameError ''docker''), log (GetSiteUrl ''gone'') sample_world)
   \<and> run_events sample_env
     (sample_args\<lparr>old_hg_name := Some ''gone'', old_site_url := Some ''http://old'',
        old_data_dir := Some ''/d''\<rparr>) sample_world = [GetSiteUrl ''gone'']"
  using lookup_failure_is_name_error
    [of "sample_args\<lparr>old_hg_name := Some ''gone'', old_site_url := Some ''http://old'',
        old_data_dir := Some ''/d''\<rparr>" "''gone''" sample_env NotFound sample_world]
  by (simp add: sample_env_def)

subsection \<open>Literals with apostrophes\<close>

lemma sql_literal_body_plain_head:
  assumes "x \<noteq> apostrophe" and "sql_literal_body (x # r) = Some (y, rest)"
  shows "\<exists>y'. y = x # y'"
  using assms by (cases r) (auto split: if_splits)

lemma replicate_apostrophe_shift:
  "replicate k apostrophe @ apostrophe # v = apostrophe # replicate k apostrophe @ v"
  by (induction k) simp_all

lemma sql_literal_body_quoted:
  assumes "x \<noteq> apostrophe"
  shows "1 \<le> k \<or> apostrophe \<in> set v \<Longrightarrow>
         sql_literal_body (v @ apostrophe # x # r) \<noteq> Some (replicate k apostrophe @ v, rest)"
proof (induction v arbitrary: k rest rule: sql_literal_body.induct)
  case 1
  then have "1 \<le> k" by simp
  then have "replicate k apostrophe \<noteq> []" by auto
  with assms show ?case by auto
next
  case (2 c)
  show ?case
  proof (cases "c = apostrophe")
    case True
    show ?thesis
    proof
      assume eq: "sql_literal_body ([c] @ apostrophe # x # r) = Some (replicate k apostrophe @ [c], rest)"
      then obtain y where y: "sql_literal_body (x # r) = Some (y, rest)"
        and t: "replicate k apostrophe @ [c] = apostrophe # y"
        using True by auto
      from sql_literal_body_plain_head [OF assms y] obtain y' where "y = x # y'" by blast
      with t True have "replicate k apostrophe @ [apostrophe] = apostrophe # x # y'" by simp
      then have "apostrophe # replicate k apostrophe = apostrophe # x # y'"
        by (simp add: replicate_append_same)
      then show False using assms by (cases k) auto
    qed
  next
    case False
    with 2 have k: "1 \<le> k" by auto
    have "sql_literal_body ([c] @ apostrophe # x # r) = Some ([c], x # r)"
      using False assms by simp
    moreover have "length (replicate k apostrophe @ [c]) \<noteq> length [c]"
      using k by simp
    then have "replicate k apostrophe @ [c] \<noteq> [c]" by metis
    ultimately show ?thesis by simp
  qed
next
  case (3 c d cs)
  show ?case
  proof (cases "c = apostrophe")
    case c: True
    show ?thesis
    proof (cases "d = apostrophe")
      case d: True
      have ih: "sql_literal_body (cs @ apostrophe # x # r)
                  \<noteq> Some (replicate (Suc k) apostrophe @ cs, rest)"
        using "3.IH"(2) [of "Suc k" rest] c d by simp
      have tgt: "replicate k apostrophe @ c # d # cs = apostrophe # replicate (Suc k) apostrophe @ cs"
        using c d by (simp add: replicate_apostrophe_shift)
      have step: "sql_literal_body ((c # d # cs) @ apostrophe # x # r)
          = map_option (apfst ((#) apostrophe)) (sql_literal_body (cs @ apostrophe # x # r))"
        using c d by simp
      show ?thesis
      proof
        assume "sql_literal_body ((c # d # cs) @ apostrophe # x # r)
                  = Some (replicate k apostrophe @ c # d # cs, rest)"
        then have "map_option (apfst ((#) apostrophe)) (sql_literal_body (cs @ apostrophe # x # r))
            = Some (apostrophe # replicate (Suc k) apostrophe @ cs, rest)"
          unfolding step tgt .
        then have "sql_literal_body (cs @ apostrophe # x # r)
                  = Some (replicate (Suc k) apostrophe @ cs, rest)"
          by (auto simp del: replicate.simps)
        with ih show False by contradiction
      qed
    next
      case d: False
      have "sql_literal_body ((c # d # cs) @ apostrophe # x # r) = Some ([], d # cs @ apostrophe # x # r)"
        using c d by simp
      then show ?thesis by simp
    qed
  next
    case c: False
    have step: "sql_literal_body ((c # d # cs) @ apostrophe # x # r)
        = map_option (apfst ((#) c)) (sql_literal_body ((d # cs) @ apostrophe # x # r))"
      using c by simp
    show ?thesis
    proof (cases k)
      case 0
      with "3.prems" c have "apostrophe \<in> set (d # cs)" by auto
      then have "sql_literal_body ((d # cs) @ apostrophe # x # r)
                  \<noteq> Some (replicate 0 apostrophe @ (d # cs), rest)"
        using "3.IH"(1) [OF c, of 0 rest] by blast
      with step 0 show ?thesis by auto
    next
      case (Suc k')
      with step c show ?thesis by auto
    qed
  qed
qed

lemma sql_literal_quoted:
  assumes "x \<noteq> apostrophe" and "apostrophe \<in> set v"
  shows "sql_literal (apostrophe # v @ apostrophe # x # r) \<noteq> Some (v, rest)"
  using sql_literal_body_quoted [OF assms(1), of 0 v r rest] assms(2)
  by (simp add: sql_literal_def)

lemma query_tail_head: "query_tail = CHR '')'' # newline # ''            ''"
  by (simp add: query_tail_def)

lemma parse_update_quoted:
  assumes "apostrophe \<in> set origin \<or> apostrophe \<in> set destination"
  shows "parse_update (db_query origin destination) \<noteq> Some (origin, destination)"
proof (cases "apostrophe \<in> set origin")
  case True
  have c: "CHR '','' \<noteq> apostrophe" by (simp add: apostrophe_def)
  have "\<And>rest. sql_literal (apostrophe # origin @ apostrophe # CHR '','' # apostrophe # destination
       @ apostrophe # query_tail) \<noteq> Some (origin, rest)"
    using sql_literal_quoted [OF c True] by simp
  then show ?thesis
    unfolding parse_update_def db_query_layout
    by (auto split: option.splits list.splits if_splits)
next
  case False
  with assms have d: "apostrophe \<in> set destination" by simp
  have c: "CHR '','' \<noteq> apostrophe" "CHR '')'' \<noteq> apostrophe" by (simp_all add: apostrophe_def)
  have l1: "sql_literal (apostrophe # origin @ apostrophe # CHR '','' # apostrophe # destination
       @ apostrophe # query_tail) = Some (origin, CHR '','' # apostrophe # destination
       @ apostrophe # query_tail)"
    using sql_literal_plain [OF False, of "CHR '','' # apostrophe # destination
       @ apostrophe # query_tail"] c by simp
  have l2: "\<And>rest. sql_literal (apostrophe # destination @ apostrophe # query_tail)
      \<noteq> Some (destination, rest)"
    using sql_literal_quoted [OF c(2) d] by (simp add: query_tail_head)
  show ?thesis
    unfolding parse_update_def db_query_layout
    using l1 l2 by (auto split: option.splits list.splits if_splits)
qed

subsection \<open>The interpolated statement\<close>

lemma execute_plain:
  assumes "apostrophe \<notin> set origin" and "apostrophe \<notin> set destination"
    and "encodable_text origin" and "encodable_text destination"
  shows "execute en (db_query origin destination) rows
           = update_rows (write_fault en) (\<lambda>viewconf. sql_replace viewconf origin destination) 0 rows"
proof -
  have "statement_error (db_query origin destination) = None"
    using assms(3,4) by (simp add: statement_error_None encodable_text_db_query)
  then show ?thesis
    by (simp add: execute_def parse_update_db_query [OF assms])
qed

lemma execute_rejected:
  assumes "\<not> (encodable_text origin \<and> encodable_text destination)"
  shows "\<exists>ex. execute en (db_query origin destination) rows = (Some ex, rows)"
proof -
  have "statement_error (db_query origin destination) \<noteq> None"
    using assms by (simp add: statement_error_None encodable_text_db_query)
  then show ?thesis
    by (auto simp: execute_def)
qed

lemma doubled_origin_encodable: "encodable_text doubled_origin" "encodable_text ''x''"
  by (rule encodable_text_ascii, simp add: doubled_origin_def apostrophe_def byte_def)+

lemma parse_update_doubled_apostrophe:
  "parse_update (db_query doubled_origin ''x'') = Some (merged_origin, ''x'')"
proof -
  have "sql_literal (apostrophe # doubled_origin @ apostrophe # CHR '','' #
          apostrophe # ''x'' @ apostrophe # query_tail)
        = Some (merged_origin, CHR '','' # apostrophe # ''x'' @ apostrophe # query_tail)"
    by (simp add: sql_literal_def apostrophe_def doubled_origin_def merged_origin_def)
  moreover have "sql_literal (apostrophe # ''x'' @ apostrophe # query_tail) = Some (''x'', query_tail)"
    by (simp add: sql_literal_def apostrophe_def query_tail_head)
  moreover have "statement_error (db_query doubled_origin ''x'') = None"
    using doubled_origin_encodable
    by (simp add: statement_error_None encodable_text_db_query)
  ultimately show ?thesis
    unfolding parse_update_def db_query_layout by simp
qed

text \<open>
  C10 (amended).  The two endpoints are pasted between apostrophes into the text of the
  statement.  SQLite reads the statement as the replacement of \<open>origin\<close> by \<open>destination\<close>
  exactly when neither contains an apostrophe and both can be handed to SQLite (well-formed
  UTF-8 without a NUL character); then executing it is the row loop with \<open>sql_replace\<close>.
  An endpoint with an apostrophe is never read as itself: the apostrophe ends the literal
  or is merged with the next one.  An endpoint that cannot be handed to SQLite makes the
  execution raise with the records as they were.
\<close>

theorem interpolated_statement:
  "(parse_update (db_query origin destination) = Some (origin, destination))
     = (apostrophe \<notin> set origin \<and> apostrophe \<notin> set destination
        \<and> encodable_text origin \<and> encodable_text destination)
   \<and> (apostrophe \<notin> set origin \<and> apostrophe \<notin> set destination
        \<and> encodable_text origin \<and> encodable_text destination \<longrightarrow>
        execute en (db_query origin destination) rows
          = update_rows (write_fault en) (\<lambda>viewconf. sql_replace viewconf origin destination) 0 rows)
   \<and> (apostrophe \<in> set origin \<or> apostrophe \<in> set destination \<longrightarrow>
        parse_update (db_query origin destination) \<noteq> Some (origin, destination))
   \<and> (\<not> (encodable_text origin \<and> encodable_text destination) \<longrightarrow>
        (\<exists>ex. execute en (db_query origin destination) rows = (Some ex, rows)))"
proof -
  have "encodable_text origin \<and> encodable_text destination"
    if "parse_update (db_query origin destination) = Some (origin, destination)"
    using parse_update_accepted [OF that] by (simp add: encodable_text_db_query)
  with parse_update_db_query [of origin destination] parse_update_quoted [of origin destination]
    execute_plain [of origin destination en rows] execute_rejected [of origin destination en rows]
  show ?thesis
    by blast
qed

lemma sql_replace_sample:
  "sql_replace ''u=http://old:8000/t'' ''http://old:8000'' ''http://new'' = ''u=http://new/t''"
  by simp

lemma sample_endpoints_encodable:
  "encodable_text ''http://old:8000''" "encodable_text ''http://new''"
  "encodable_text ''http://old''" "encodable_text ''aa''" "encodable_text ''b''"
  by (rule encodable_text_ascii, simp add: byte_def)+

theorem interpolated_statement_witness:
  "apostrophe \<notin> set ''http://old:8000'' \<and> apostrophe \<notin> set ''http://new''
   \<and> encodable_text ''http://old:8000'' \<and> encodable_text ''http://new''
   \<and> parse_update (db_query ''http://old:8000'' ''http://new'') = Some (''http://old:8000'', ''http://new'')
   \<and> execute sample_env (db_query ''http://old:8000'' ''http://new'') [''u=http://old:8000/t'', ''{}'']
        = (None, [''u=http://new/t'', ''{}''])
   \<and> apostrophe \<in> set doubled_origin
   \<and> parse_update (db_query doubled_origin ''x'') \<noteq> Some (doubled_origin, ''x'')
   \<and> parse_update (db_query doubled_origin ''x'') = Some (merged_origin, ''x'')
   \<and> \<not> encodable_text undecodable_origin
   \<and> execute sample_env (db_query undecodable_origin ''x'') [''u='' @ undecodable_origin]
        = (Some UnicodeEncodeError, [''u='' @ undecodable_origin])"
proof -
  have h: "apostrophe \<notin> set ''http://old:8000'' \<and> apostrophe \<notin> set ''http://new''"
    by (simp add: apostrophe_def)
  have d: "apostrophe \<in> set doubled_origin"
    by (simp add: doubled_origin_def)
  have u: "\<not> encodable_text undecodable_origin"
    by (simp add: encodable_text_def undecodable_origin_def byte_def)
  have ue: "execute sample_env (db_query undecodable_origin ''x'') [''u='' @ undecodable_origin]
        = (Some UnicodeEncodeError, [''u='' @ undecodable_origin])"
    using u doubled_origin_encodable(2)
    by (simp add: execute_def statement_error_def utf8_encodable_db_query encodable_text_def
        undecodable_origin_def byte_def)
  from interpolated_statement [of "''http://old:8000''" "''http://new''" sample_env
      "[''u=http://old:8000/t'', ''{}'']"] h sample_endpoints_encodable(1,2)
  have a: "parse_update (db_query ''http://old:8000'' ''http://new'')
       = Some (''http://old:8000'', ''http://new'')
     \<and> execute sample_env (db_query ''http://old:8000'' ''http://new'')
          [''u=http://old:8000/t'', ''{}''] = (None, [''u=http://new/t'', ''{}''])"
    by (simp add: sample_env_def)
  from interpolated_statement [of doubled_origin "''x''" sample_env "[]"] d
  have b: "parse_update (db_query doubled_origin ''x'') \<noteq> Some (doubled_origin, ''x'')"
    by blast
  from h sample_endpoints_encodable(1,2) a d b parse_update_doubled_apostrophe u ue
  show ?thesis
    by blast
qed

subsection \<open>The rewrite of the copy\<close>

lemma files_log [simp]: "files (log e w) = files w"
  by (simp add: log_def)

lemma trace_log [simp]: "trace (log e w) = trace w @ [e]"
  by (simp add: log_def)

lemma rewrite_Store:
  assumes "files w update_db_path = Some (Store rows)"
  shows "rewrite en update_db_path origin destination w =
     (if connect_fails en update_db_path
      then (Some (SystemExit (- 1)),
            log (Stderr (FailedToConnect update_db_path)) (log (Connect update_db_path) w))
      else
        (case execute en (db_query origin destination) rows of
           (Some ex, pending) \<Rightarrow>
             (Some ex, log Rollback (log (Execute (db_query origin destination))
                 (log (Connect update_db_path) w)))
         | (None, pending) \<Rightarrow>
             (if commit_fault en
              then (Some SqliteError, log Rollback (log (Execute (db_query origin destination))
                 (log (Connect update_db_path) w)))
              else (None, log CloseConn (log Commit
                 ((log (Execute (db_query origin destination)) (log (Connect update_db_path) w))
                    \<lparr>files := (files w)(update_db_path \<mapsto> Store pending)\<rparr>))))))"
  using assms by (auto simp: rewrite_def Let_def split: prod.splits option.splits)

lemma rewrite_Store_failure:
  assumes "files w update_db_path = Some (Store rows)"
    and "fst (rewrite en update_db_path origin destination w) = Some ex"
  shows "files (snd (rewrite en update_db_path origin destination w)) = files w"
  using assms(2) unfolding rewrite_Store [OF assms(1)]
  by (auto split: if_splits prod.splits option.splits)

lemma rewrite_Store_success:
  assumes "files w update_db_path = Some (Store rows)"
    and "fst (rewrite en update_db_path origin destination w) = None"
  shows "\<exists>rows'. execute en (db_query origin destination) rows = (None, rows')
           \<and> files (snd (rewrite en update_db_path origin destination w))
               = (files w)(update_db_path \<mapsto> Store rows')"
  using assms(2) unfolding rewrite_Store [OF assms(1)]
  by (auto split: if_splits prod.splits option.splits)

lemma execute_complete:
  assumes "execute en q rows = (None, rows')" and "parse_update q = Some (y, z)"
  shows "rows' = map (\<lambda>viewconf. sql_replace viewconf y z) rows"
proof -
  have "statement_error q = None"
    using parse_update_accepted [OF assms(2)] by (simp add: statement_error_None)
  with assms show ?thesis
    by (simp add: execute_def update_rows_complete)
qed

text \<open>
  C2.  On a copy that holds the records \<open>rows\<close>, the rewrite ends in one of two ways.
  Either it raises (no connection, a storage fault at some row, a failed commit, a
  statement SQLite rejects) and every file is what it was before, although rows may
  already have been rewritten inside the open transaction; or it returns, the statement
  has run on all rows, and only the copy has changed: for a statement read as a
  replacement, every record is the replaced one.
\<close>

theorem rewrite_atomic:
  assumes "files w update_db_path = Some (Store rows)"
  shows "(\<exists>ex. fst (rewrite en update_db_path origin destination w) = Some ex
            \<and> files (snd (rewrite en update_db_path origin destination w)) = files w)
       \<or> (fst (rewrite en update_db_path origin destination w) = None
            \<and> (\<exists>rows'. execute en (db_query origin destination) rows = (None, rows')
                  \<and> files (snd (rewrite en update_db_path origin destination w))
                      = (files w)(update_db_path \<mapsto> Store rows')
                  \<and> (\<forall>y z. parse_update (db_query origin destination) = Some (y, z) \<longrightarrow>
                        rows' = map (\<lambda>viewconf. sql_replace viewconf y z) rows)))"
proof (cases "fst (rewrite en update_db_path origin destination w)")
  case None
  from rewrite_Store_success [OF assms None] obtain rows' where
    r: "execute en (db_query origin destination) rows = (None, rows')"
       "files (snd (rewrite en update_db_path origin destination w))
               = (files w)(update_db_path \<mapsto> Store rows')"
    by blast
  have "\<forall>y z. parse_update (db_query origin destination) = Some (y, z) \<longrightarrow>
                        rows' = map (\<lambda>viewconf. sql_replace viewconf y z) rows"
    using execute_complete [OF r(1)] by blast
  with None r show ?thesis by blast
next
  case (Some ex)
  with rewrite_Store_failure [OF assms Some] show ?thesis by blast
qed

theorem rewrite_atomic_witness:
  "files sample_snapshot ''/d/db.updated'' = Some (Store [''u=http://old:8000/t'', ''{}''])
   \<and> execute (sample_env\<lparr>write_fault := (\<lambda>i. i = 1)\<rparr>) (db_query ''http://old:8000'' ''http://new'')
         [''u=http://old:8000/t'', ''{}''] = (Some SqliteError, [''u=http://new/t'', ''{}''])
   \<and> fst (rewrite (sample_env\<lparr>write_fault := (\<lambda>i. i = 1)\<rparr>) ''/d/db.updated''
         ''http://old:8000'' ''http://new'' sample_snapshot) = Some SqliteError
   \<and> files (snd (rewrite (sample_env\<lparr>write_fault := (\<lambda>i. i = 1)\<rparr>) ''/d/db.updated''
         ''http://old:8000'' ''http://new'' sample_snapshot)) = files sample_snapshot"
proof -
  have f: "files sample_snapshot ''/d/db.updated'' = Some (Store [''u=http://old:8000/t'', ''{}''])"
    by (simp add: sample_snapshot_def)
  have q: "apostrophe \<notin> set ''http://old:8000''" "apostrophe \<notin> set ''http://new''"
    by (simp_all add: apostrophe_def)
  have e: "execute (sample_env\<lparr>write_fault := (\<lambda>i. i = 1)\<rparr>) (db_query ''http://old:8000'' ''http://new'')
         [''u=http://old:8000/t'', ''{}''] = (Some SqliteError, [''u=http://new/t'', ''{}''])"
    unfolding execute_plain [OF q sample_endpoints_encodable(1,2)] by simp
  have r: "fst (rewrite (sample_env\<lparr>write_fault := (\<lambda>i. i = 1)\<rparr>) ''/d/db.updated''
         ''http://old:8000'' ''http://new'' sample_snapshot) = Some SqliteError"
    unfolding rewrite_Store [OF f] e by (simp add: sample_env_def)
  from rewrite_atomic [OF f, of "sample_env\<lparr>write_fault := (\<lambda>i. i = 1)\<rparr>"
      "''http://old:8000''" "''http://new''"] f e r
  show ?thesis by simp
qed

lemma rewrite_succeeds:
  assumes "apostrophe \<notin> set origin" and "apostrophe \<notin> set destination"
    and "encodable_text origin" and "encodable_text destination"
    and "files w update_db_path = Some (Store rows)"
    and "\<not> connect_fails en update_db_path" and "\<forall>i<length rows. \<not> write_fault en i"
    and "\<not> commit_fault en"
  shows "rewrite en update_db_path origin destination w =
     (None, log CloseConn (log Commit
        ((log (Execute (db_query origin destination)) (log (Connect update_db_path) w))
           \<lparr>files := (files w)(update_db_path \<mapsto>
               Store (map (\<lambda>viewconf. sql_replace viewconf origin destination) rows))\<rparr>)))"
proof -
  have "execute en (db_query origin destination) rows
      = (None, map (\<lambda>viewconf. sql_replace viewconf origin destination) rows)"
    unfolding execute_plain [OF assms(1,2,3,4)]
    using assms(7) by (intro update_rows_no_fault) simp
  then show ?thesis
    unfolding rewrite_Store [OF assms(5)] using assms(6,8) by simp
qed

lemma execute_returned_plain:
  assumes "apostrophe \<notin> set origin" and "apostrophe \<notin> set destination"
    and "execute en (db_query origin destination) rows = (None, rows')"
  shows "parse_update (db_query origin destination) = Some (origin, destination)"
proof -
  from execute_returns_accepted [OF assms(3)]
  have "encodable_text origin" "encodable_text destination"
    by (simp_all add: encodable_text_db_query)
  with assms(1,2) show ?thesis
    by (intro parse_update_db_query)
qed

text \<open>
  C1 (amended).  For endpoints without apostrophes, after a rewrite that returns, the
  copy has as many records as before; a record without the origin is unchanged; with an
  empty origin every record is unchanged; with a non-empty origin every record is the
  segments between the occurrences of the origin that a scan from the left finds
  (\<open>leftmost_segments\<close>: occurrences do not overlap, each is the first one after the end
  of the one before), and its new content is these segments with the destination between
  them.  The segments are origin-free, and they determine the new content: whatever
  leftmost segments give the record give the new content.
\<close>

theorem rewrite_substitutes:
  assumes "apostrophe \<notin> set origin" and "apostrophe \<notin> set destination"
    and "files w update_db_path = Some (Store rows)"
    and "rewrite en update_db_path origin destination w = (None, w')"
  shows "\<exists>rows'. files w' update_db_path = Some (Store rows') \<and> length rows' = length rows
     \<and> (\<forall>i<length rows.
          (\<not> sublist origin (rows ! i) \<longrightarrow> rows' ! i = rows ! i)
        \<and> (origin = [] \<longrightarrow> rows' ! i = rows ! i)
        \<and> (origin \<noteq> [] \<longrightarrow>
             (\<exists>segs. leftmost_segments origin segs
                \<and> rows ! i = join origin segs \<and> rows' ! i = join destination segs
                \<and> (\<forall>s\<in>set segs. \<not> sublist origin s))
           \<and> (\<forall>segs. leftmost_segments origin segs \<and> rows ! i = join origin segs \<longrightarrow>
                  rows' ! i = join destination segs)))"
proof -
  let ?f = "\<lambda>viewconf. sql_replace viewconf origin destination"
  from assms(4) have "fst (rewrite en update_db_path origin destination w) = None"
    and w': "w' = snd (rewrite en update_db_path origin destination w)"
    by simp_all
  from rewrite_Store_success [OF assms(3) this(1)] obtain rows' where
    e: "execute en (db_query origin destination) rows = (None, rows')"
    and fs: "files w' = (files w)(update_db_path \<mapsto> Store rows')"
    unfolding w' by blast
  have rows': "rows' = map ?f rows"
    using execute_complete [OF e execute_returned_plain [OF assms(1,2) e]] .
  have "files w' update_db_path = Some (Store (map ?f rows))"
    using fs rows' by simp
  moreover have "\<forall>i<length rows.
          (\<not> sublist origin (rows ! i) \<longrightarrow> map ?f rows ! i = rows ! i)
        \<and> (origin = [] \<longrightarrow> map ?f rows ! i = rows ! i)
        \<and> (origin \<noteq> [] \<longrightarrow>
             (\<exists>segs. leftmost_segments origin segs
                \<and> rows ! i = join origin segs \<and> map ?f rows ! i = join destination segs
                \<and> (\<forall>s\<in>set segs. \<not> sublist origin s))
           \<and> (\<forall>segs. leftmost_segments origin segs \<and> rows ! i = join origin segs \<longrightarrow>
                  map ?f rows ! i = join destination segs))"
  proof (intro allI impI conjI)
    fix i assume "i < length rows" "\<not> sublist origin (rows ! i)"
    then show "map ?f rows ! i = rows ! i" by (simp add: sql_replace_absent)
  next
    fix i assume "i < length rows" "origin = []"
    then show "map ?f rows ! i = rows ! i" by (simp add: sql_replace_empty_pattern)
  next
    fix i assume i: "i < length rows" and o: "origin \<noteq> []"
    from sql_replace_segments [OF o, of "rows ! i" destination] obtain segs where
      segs: "leftmost_segments origin segs" "rows ! i = join origin segs"
      "sql_replace (rows ! i) origin destination = join destination segs"
      by blast
    with i leftmost_segments_free [OF segs(1)]
    show "\<exists>segs. leftmost_segments origin segs
                \<and> rows ! i = join origin segs \<and> map ?f rows ! i = join destination segs
                \<and> (\<forall>s\<in>set segs. \<not> sublist origin s)"
      by auto
  next
    fix i segs assume i: "i < length rows" and o: "origin \<noteq> []"
      and l: "leftmost_segments origin segs \<and> rows ! i = join origin segs"
    from sql_replace_determined [OF o, of segs destination] l i
    show "map ?f rows ! i = join destination segs"
      by simp
  qed
  ultimately show ?thesis
    by (intro exI [of _ "map ?f rows"]) simp
qed

lemma sample_snapshot_file:
  "files sample_snapshot ''/d/db.updated'' = Some (Store [''u=http://old:8000/t'', ''{}''])"
  by (simp add: sample_snapshot_def)

lemma overlap_snapshot_file:
  "files overlap_snapshot ''/d/db.updated'' = Some (Store [''aaa''])"
  by (simp add: overlap_snapshot_def)

lemma sample_env_no_faults:
  "\<not> connect_fails sample_env p" "\<not> write_fault sample_env i" "\<not> commit_fault sample_env"
  by (simp_all add: sample_env_def)

lemma singleton_by_nth: "length xs = 1 \<Longrightarrow> xs ! 0 = x \<Longrightarrow> xs = [x]"
  by (cases xs) auto

theorem rewrite_substitutes_witness:
  "apostrophe \<notin> set ''aa'' \<and> apostrophe \<notin> set ''b''
   \<and> files overlap_snapshot ''/d/db.updated'' = Some (Store [''aaa''])
   \<and> fst (rewrite sample_env ''/d/db.updated'' ''aa'' ''b'' overlap_snapshot) = None
   \<and> leftmost_segments ''aa'' [[], ''a''] \<and> \<not> leftmost_segments ''aa'' [''a'', []]
   \<and> ''aaa'' = join ''aa'' [[], ''a''] \<and> ''aaa'' = join ''aa'' [''a'', []]
   \<and> files (snd (rewrite sample_env ''/d/db.updated'' ''aa'' ''b'' overlap_snapshot))
        ''/d/db.updated'' = Some (Store [''ba''])"
proof -
  let ?w' = "snd (rewrite sample_env ''/d/db.updated'' ''aa'' ''b'' overlap_snapshot)"
  have q: "apostrophe \<notin> set ''aa''" "apostrophe \<notin> set ''b''"
    by (simp_all add: apostrophe_def)
  have ok: "rewrite sample_env ''/d/db.updated'' ''aa'' ''b'' overlap_snapshot = (None, ?w')"
    using rewrite_succeeds [OF q sample_endpoints_encodable(4,5) overlap_snapshot_file,
        of sample_env]
    by (simp add: sample_env_no_faults)
  have l: "leftmost_segments ''aa'' [[], ''a'']" "\<not> leftmost_segments ''aa'' [''a'', []]"
    "''aaa'' = join ''aa'' [[], ''a'']" "''aaa'' = join ''aa'' [''a'', []]"
    by (simp_all add: sublist_Cons_right)
  from rewrite_substitutes [OF q overlap_snapshot_file ok] obtain rows' where
    r: "files ?w' ''/d/db.updated'' = Some (Store rows')" "length rows' = length [''aaa'']"
    and d: "\<forall>segs. leftmost_segments ''aa'' segs \<and> [''aaa''] ! 0 = join ''aa'' segs \<longrightarrow>
              rows' ! 0 = join ''b'' segs"
    by force
  from d l(1,3) have "rows' ! 0 = join ''b'' [[], ''a'']"
    by (metis nth_Cons_0)
  then have "rows' ! 0 = ''ba''" by simp
  with r(2) have "rows' = [''ba'']"
    by (intro singleton_by_nth) simp_all
  with r(1) q overlap_snapshot_file ok l show ?thesis
    by (metis fst_conv)
qed

lemma doubled_snapshot_file:
  "files doubled_snapshot ''/d/db.updated'' = Some (Store [doubled_origin, merged_origin])"
  by (simp add: doubled_snapshot_def)

lemma sql_replace_doubled:
  "sql_replace doubled_origin merged_origin ''x'' = doubled_origin"
  "sql_replace merged_origin merged_origin ''x'' = ''x''"
  by (simp_all add: doubled_origin_def merged_origin_def apostrophe_def)

text \<open>
  The claim as written fails for an origin with a doubled apostrophe: SQLite reads the
  literal with the two apostrophes merged, so the record that contains the origin stays
  as it is and the record that does not contain it is rewritten.
\<close>

theorem rewrite_substitutes_counterexample:
  "sublist doubled_origin doubled_origin
   \<and> \<not> sublist doubled_origin merged_origin
   \<and> files doubled_snapshot ''/d/db.updated'' = Some (Store [doubled_origin, merged_origin])
   \<and> fst (rewrite sample_env ''/d/db.updated'' doubled_origin ''x'' doubled_snapshot) = None
   \<and> files (snd (rewrite sample_env ''/d/db.updated'' doubled_origin ''x'' doubled_snapshot))
        ''/d/db.updated'' = Some (Store [doubled_origin, ''x''])
   \<and> merged_origin \<noteq> ''x''"
proof -
  have e: "execute sample_env (db_query doubled_origin ''x'') [doubled_origin, merged_origin]
      = (None, [doubled_origin, ''x''])"
    using doubled_origin_encodable
    by (simp add: execute_def statement_error_None [THEN iffD2] encodable_text_db_query
        parse_update_doubled_apostrophe sql_replace_doubled sample_env_no_faults)
  have ns: "\<not> sublist doubled_origin merged_origin"
    by (simp add: doubled_origin_def merged_origin_def apostrophe_def sublist_Cons_right)
  have ne: "merged_origin \<noteq> ''x''"
    by (simp add: merged_origin_def)
  show ?thesis
    unfolding rewrite_Store [OF doubled_snapshot_file] e
    using ns ne doubled_snapshot_file by (simp add: sample_env_no_faults)
qed

text \<open>
  C5 (amended).  For endpoints without apostrophes: when no record of the copy contains the
  origin after a first rewrite, a second rewrite with the same endpoints leaves every
  file as the first one left it.
\<close>

theorem rewrite_twice:
  assumes "apostrophe \<notin> set origin" and "apostrophe \<notin> set destination"
    and "rewrite en update_db_path origin destination w = (None, w1)"
    and "files w1 update_db_path = Some (Store rows1)"
    and "\<forall>r\<in>set rows1. \<not> sublist origin r"
    and "rewrite en update_db_path origin destination w1 = (None, w2)"
  shows "files w2 = files w1"
proof -
  let ?f = "\<lambda>viewconf. sql_replace viewconf origin destination"
  from assms(6) have "fst (rewrite en update_db_path origin destination w1) = None"
    and w2: "w2 = snd (rewrite en update_db_path origin destination w1)"
    by simp_all
  from rewrite_Store_success [OF assms(4) this(1)] obtain rows2 where
    e: "execute en (db_query origin destination) rows1 = (None, rows2)"
    and fs: "files w2 = (files w1)(update_db_path \<mapsto> Store rows2)"
    unfolding w2 by blast
  have "rows2 = map ?f rows1"
    using execute_complete [OF e execute_returned_plain [OF assms(1,2) e]] .
  also have "\<dots> = rows1"
    using assms(5) by (simp add: sql_replace_absent map_idI)
  finally show ?thesis
    using fs assms(4) by (simp add: map_upd_triv)
qed

theorem rewrite_twice_witness:
  "apostrophe \<notin> set ''http://old:8000'' \<and> apostrophe \<notin> set ''http://new''
   \<and> fst (rewrite sample_env ''/d/db.updated'' ''http://old:8000'' ''http://new'' sample_snapshot) = None
   \<and> files (snd (rewrite sample_env ''/d/db.updated'' ''http://old:8000'' ''http://new''
         sample_snapshot)) ''/d/db.updated'' = Some (Store [''u=http://new/t'', ''{}''])
   \<and> \<not> sublist ''http://old:8000'' ''u=http://new/t'' \<and> \<not> sublist ''http://old:8000'' ''{}''
   \<and> fst (rewrite sample_env ''/d/db.updated'' ''http://old:8000'' ''http://new''
         (snd (rewrite sample_env ''/d/db.updated'' ''http://old:8000'' ''http://new''
            sample_snapshot))) = None
   \<and> files (snd (rewrite sample_env ''/d/db.updated'' ''http://old:8000'' ''http://new''
         (snd (rewrite sample_env ''/d/db.updated'' ''http://old:8000'' ''http://new''
            sample_snapshot))))
       = files (snd (rewrite sample_env ''/d/db.updated'' ''http://old:8000'' ''http://new''
            sample_snapshot))"
proof -
  let ?w1 = "snd (rewrite sample_env ''/d/db.updated'' ''http://old:8000'' ''http://new''
            sample_snapshot)"
  let ?w2 = "snd (rewrite sample_env ''/d/db.updated'' ''http://old:8000'' ''http://new'' ?w1)"
  have q: "apostrophe \<notin> set ''http://old:8000''" "apostrophe \<notin> set ''http://new''"
    by (simp_all add: apostrophe_def)
  have r1: "rewrite sample_env ''/d/db.updated'' ''http://old:8000'' ''http://new'' sample_snapshot
      = (None, ?w1)"
    using rewrite_succeeds [OF q sample_endpoints_encodable(1,2) sample_snapshot_file, of sample_env]
    by (simp add: sample_env_no_faults)
  have f1: "files ?w1 ''/d/db.updated'' = Some (Store [''u=http://new/t'', ''{}''])"
    using rewrite_succeeds [OF q sample_endpoints_encodable(1,2) sample_snapshot_file, of sample_env]
    by (simp add: sample_env_no_faults)
  have r2: "rewrite sample_env ''/d/db.updated'' ''http://old:8000'' ''http://new'' ?w1 = (None, ?w2)"
    using rewrite_succeeds [OF q sample_endpoints_encodable(1,2) f1, of sample_env]
    by (simp add: sample_env_no_faults)
  have ns: "\<not> sublist ''http://old:8000'' ''u=http://new/t''" "\<not> sublist ''http://old:8000'' ''{}''"
    by (simp_all add: sublist_Cons_right)
  then have all: "\<forall>r\<in>set [''u=http://new/t'', ''{}'']. \<not> sublist ''http://old:8000'' r"
    by simp
  from rewrite_twice [OF q r1 f1 all r2] q r1 f1 r2 ns show ?thesis
    by (metis fst_conv)
qed

lemma sql_replace_nested:
  "sql_replace ''u=http://old:8000/t'' ''http://old'' ''http://old:8000'' = ''u=http://old:8000:8000/t''"
  "sql_replace ''u=http://old:8000:8000/t'' ''http://old'' ''http://old:8000''
     = ''u=http://old:8000:8000:8000/t''"
  "sql_replace ''{}'' ''http://old'' ''http://old:8000'' = ''{}''"
  by simp_all

text \<open>
  The claim as written fails when the destination contains the origin (the same host
  with another port): each rewrite inserts the port once more.
\<close>

theorem rewrite_twice_counterexample:
  "fst (rewrite sample_env ''/d/db.updated'' ''http://old'' ''http://old:8000'' sample_snapshot) = None
   \<and> files (snd (rewrite sample_env ''/d/db.updated'' ''http://old'' ''http://old:8000''
         sample_snapshot)) ''/d/db.updated'' = Some (Store [''u=http://old:8000:8000/t'', ''{}''])
   \<and> fst (rewrite sample_env ''/d/db.updated'' ''http://old'' ''http://old:8000''
         (snd (rewrite sample_env ''/d/db.updated'' ''http://old'' ''http://old:8000''
            sample_snapshot))) = None
   \<and> files (snd (rewrite sample_env ''/d/db.updated'' ''http://old'' ''http://old:8000''
         (snd (rewrite sample_env ''/d/db.updated'' ''http://old'' ''http://old:8000''
            sample_snapshot)))) ''/d/db.updated''
       = Some (Store [''u=http://old:8000:8000:8000/t'', ''{}''])"
proof -
  let ?w1 = "snd (rewrite sample_env ''/d/db.updated'' ''http://old'' ''http://old:8000''
            sample_snapshot)"
  have q: "apostrophe \<notin> set ''http://old''" "apostrophe \<notin> set ''http://old:8000''"
    by (simp_all add: apostrophe_def)
  have r1: "rewrite sample_env ''/d/db.updated'' ''http://old'' ''http://old:8000'' sample_snapshot
      = (None, ?w1)"
    using rewrite_succeeds [OF q sample_endpoints_encodable(3,1) sample_snapshot_file, of sample_env]
    by (simp add: sample_env_no_faults)
  have f1: "files ?w1 ''/d/db.updated'' = Some (Store [''u=http://old:8000:8000/t'', ''{}''])"
    using rewrite_succeeds [OF q sample_endpoints_encodable(3,1) sample_snapshot_file, of sample_env]
    by (simp add: sample_env_no_faults sql_replace_nested del: sql_replace.simps)
  have r2: "fst (rewrite sample_env ''/d/db.updated'' ''http://old'' ''http://old:8000'' ?w1) = None"
    using rewrite_succeeds [OF q sample_endpoints_encodable(3,1) f1, of sample_env]
    by (simp add: sample_env_no_faults)
  have f2: "files (snd (rewrite sample_env ''/d/db.updated'' ''http://old'' ''http://old:8000'' ?w1))
      ''/d/db.updated'' = Some (Store [''u=http://old:8000:8000:8000/t'', ''{}''])"
    using rewrite_succeeds [OF q sample_endpoints_encodable(3,1) f1, of sample_env]
    by (simp add: sample_env_no_faults sql_replace_nested del: sql_replace.simps)
  from r1 f1 r2 f2 show ?thesis
    by (metis fst_conv)
qed

lemma undecodable_snapshot_file:
  "files undecodable_snapshot ''/d/db.updated'' = Some (Store [''u='' @ undecodable_origin])"
  by (simp add: undecodable_snapshot_def)

lemma execute_undecodable:
  "execute en (db_query undecodable_origin ''x'') rows = (Some UnicodeEncodeError, rows)"
  by (simp add: execute_def statement_error_def utf8_encodable_db_query
      undecodable_origin_def byte_def)

text \<open>
  The claim as written fails for an origin without an apostrophe that is not UTF-8 (a site
  URL given on the command line with such a byte): \<^verbatim>\<open>cur.execute\<close> raises
  \<^verbatim>\<open>UnicodeEncodeError\<close>, and the record that contains the origin is left as it was.
\<close>

theorem interpolated_statement_counterexample:
  "apostrophe \<notin> set undecodable_origin \<and> apostrophe \<notin> set ''x''
   \<and> sublist undecodable_origin (''u='' @ undecodable_origin)
   \<and> files undecodable_snapshot ''/d/db.updated'' = Some (Store [''u='' @ undecodable_origin])
   \<and> fst (rewrite sample_env ''/d/db.updated'' undecodable_origin ''x'' undecodable_snapshot)
       = Some UnicodeEncodeError
   \<and> files (snd (rewrite sample_env ''/d/db.updated'' undecodable_origin ''x''
        undecodable_snapshot)) ''/d/db.updated'' = Some (Store [''u='' @ undecodable_origin])"
proof -
  have q: "apostrophe \<notin> set undecodable_origin" "apostrophe \<notin> set ''x''"
    by (simp_all add: undecodable_origin_def apostrophe_def)
  have s: "sublist undecodable_origin (''u='' @ undecodable_origin)"
    by (rule sublist_append_leftI)
  show ?thesis
    unfolding rewrite_Store [OF undecodable_snapshot_file] execute_undecodable
    using q s undecodable_snapshot_file by (simp add: sample_env_no_faults)
qed

subsection \<open>The phases of a run\<close>

lemma except_NotFound_world:
  "files (snd (except_NotFound name ex vars w)) = files w"
  "\<exists>es. trace (snd (except_NotFound name ex vars w)) = trace w @ es \<and> (\<forall>e\<in>set es. phase_of e = 0)"
  by (simp_all add: except_NotFound_def)

lemma resolve_origin_files: "files (snd (resolve_origin en a w)) = files w"
  by (simp add: resolve_origin_def except_NotFound_def Let_def split: option.splits sum.splits)

lemma resolve_origin_trace:
  "\<exists>rs. trace (snd (resolve_origin en a w)) = trace w @ rs \<and> (\<forall>e\<in>set rs. phase_of e = 0)"
  by (simp add: resolve_origin_def except_NotFound_def Let_def split: option.splits sum.splits)

lemma stop_container_files:
  "files (snd (stop_container en (old_hg_name a) w)) = stopped_files en a (files w)"
  by (simp add: stop_container_def stopped_files_def split: option.splits prod.splits)

lemma stop_container_trace:
  "trace (snd (stop_container en name w)) = trace w @ (case name of None \<Rightarrow> [] | Some n \<Rightarrow> [Stop [n]])"
  by (simp add: stop_container_def split: option.splits prod.splits)

lemma backup_trace:
  "\<exists>bs. trace (snd (backup en origin_db_path update_db_path w)) = trace w @ bs
     \<and> (\<forall>e\<in>set bs. phase_of e = 2)
     \<and> (\<forall>returncode. ProcessExit returncode \<in> set bs \<and> returncode \<noteq> 0 \<longrightarrow>
           fst (backup en origin_db_path update_db_path w) = Some (RuntimeError returncode))"
  by (auto simp: backup_def copyfile_def Let_def split: proc_result.splits option.splits)

lemma backup_files:
  "sp_run en [''sqlite3'', origin_db_path, ''.backup '' @ update_db_path] (files w) = NotInstalled
     \<Longrightarrow> q \<noteq> update_db_path
     \<Longrightarrow> files (snd (backup en origin_db_path update_db_path w)) q = files w q"
  "sp_run en [''sqlite3'', origin_db_path, ''.backup '' @ update_db_path] (files w)
       = Exited returncode fs
     \<Longrightarrow> files (snd (backup en origin_db_path update_db_path w)) = fs"
  by (auto simp: backup_def copyfile_def Let_def split: proc_result.splits option.splits)

lemma rewrite_trace:
  "\<exists>ws. trace (snd (rewrite en update_db_path origin destination w)) = trace w @ ws
     \<and> (\<forall>e\<in>set ws. phase_of e = 3)"
  by (auto simp: rewrite_def Let_def split: option.splits dbfile.splits prod.splits)

lemma rewrite_files:
  "q \<noteq> update_db_path \<Longrightarrow>
     files (snd (rewrite en update_db_path origin destination w)) q = files w q"
  by (auto simp: rewrite_def Let_def split: option.splits dbfile.splits prod.splits)

lemma report_world:
  "files (report update_db_path w) = files w"
  "trace (report update_db_path w) = trace w @ [Stderr (ReadyForMigration update_db_path)]"
  by (simp_all add: report_def)

lemma op_join_updated: "op_join d (s @ ''.updated'') = op_join d s @ ''.updated''"
  by (cases s) (auto simp: op_join_def)

lemma update_viewconfs_cases:
  obtains
    (resolve_fails) ex w1 where "resolve_origin en a w = (Inl ex, w1)"
      and "update_viewconfs en a w = (Some ex, w1)"
  | (no_dir) u p w1 where "resolve_origin en a w = (Inr (u, p, None), w1)"
      and "update_viewconfs en a w = (Some TypeError, w1)"
  | (stop_fails) u p d w1 ex w2 where "resolve_origin en a w = (Inr (u, p, Some d), w1)"
      and "stop_container en (old_hg_name a) w1 = (Some ex, w2)"
      and "update_viewconfs en a w = (Some ex, w2)"
  | (backup_fails) u p d w1 w2 ex w3 where "resolve_origin en a w = (Inr (u, p, Some d), w1)"
      and "stop_container en (old_hg_name a) w1 = (None, w2)"
      and "backup en (op_join d (SQLITEDB en)) (op_join d (SQLITEDB en @ ''.updated'')) w2
             = (Some ex, w3)"
      and "update_viewconfs en a w = (Some ex, w3)"
  | (rewrite_fails) u p d w1 w2 w3 ex w4 where "resolve_origin en a w = (Inr (u, p, Some d), w1)"
      and "stop_container en (old_hg_name a) w1 = (None, w2)"
      and "backup en (op_join d (SQLITEDB en)) (op_join d (SQLITEDB en @ ''.updated'')) w2
             = (None, w3)"
      and "rewrite en (op_join d (SQLITEDB en @ ''.updated'')) (py_format (origin_of u p))
             (destination_of (new_site_url a) (new_port a)) w3 = (Some ex, w4)"
      and "update_viewconfs en a w = (Some ex, w4)"
  | (completes) u p d w1 w2 w3 w4 where "resolve_origin en a w = (Inr (u, p, Some d), w1)"
      and "stop_container en (old_hg_name a) w1 = (None, w2)"
      and "backup en (op_join d (SQLITEDB en)) (op_join d (SQLITEDB en @ ''.updated'')) w2
             = (None, w3)"
      and "rewrite en (op_join d (SQLITEDB en @ ''.updated'')) (py_format (origin_of u p))
             (destination_of (new_site_url a) (new_port a)) w3 = (None, w4)"
      and "update_viewconfs en a w
             = (None, report (op_join d (SQLITEDB en @ ''.updated'')) w4)"
proof (cases "resolve_origin en a w")
  case r: (Pair r w1)
  show thesis
  proof (cases r)
    case (Inl ex)
    with r show thesis
      by (intro resolve_fails [of ex w1]) (simp_all add: update_viewconfs_def)
  next
    case (Inr v)
    obtain u p dd where v: "v = (u, p, dd)" by (cases v)
    show thesis
    proof (cases dd)
      case None
      with r Inr v show thesis
        by (intro no_dir [of u p w1]) (simp_all add: update_viewconfs_def)
    next
      case (Some d)
      note res = r [unfolded Inr v Some]
      show thesis
      proof (cases "stop_container en (old_hg_name a) w1")
        case s: (Pair s w2)
        show thesis
        proof (cases s)
          case (Some ex)
          with res s show thesis
            by (intro stop_fails [of u p d w1 ex w2]) (simp_all add: update_viewconfs_def)
        next
          case None
          note st = s [unfolded None]
          show thesis
          proof (cases "backup en (op_join d (SQLITEDB en))
              (op_join d (SQLITEDB en @ ''.updated'')) w2")
            case b: (Pair b w3)
            show thesis
            proof (cases b)
              case (Some ex)
              with res st b show thesis
                by (intro backup_fails [of u p d w1 w2 ex w3])
                  (simp_all add: update_viewconfs_def)
            next
              case None
              note bk = b [unfolded None]
              show thesis
              proof (cases "rewrite en (op_join d (SQLITEDB en @ ''.updated''))
                  (py_format (origin_of u p))
                  (destination_of (new_site_url a) (new_port a)) w3")
                case t: (Pair t w4)
                show thesis
                proof (cases t)
                  case (Some ex)
                  with res st bk t show thesis
                    by (intro rewrite_fails [of u p d w1 w2 w3 ex w4])
                      (simp_all add: update_viewconfs_def)
                next
                  case None
                  with res st bk t show thesis
                    by (intro completes [of u p d w1 w2 w3 w4])
                      (simp_all add: update_viewconfs_def)
                qed
              qed
            qed
          qed
        qed
      qed
    qed
  qed
qed

lemma run_shape:
  obtains rs ss bs ws ps where
    "trace (snd (update_viewconfs en a w)) = trace w @ rs @ ss @ bs @ ws @ ps"
    and "\<forall>e\<in>set rs. phase_of e = 0"
    and "ss = [] \<and> bs = [] \<or> ss = (case old_hg_name a of None \<Rightarrow> [] | Some n \<Rightarrow> [Stop [n]])"
    and "\<forall>e\<in>set bs. phase_of e = 2"
    and "\<forall>e\<in>set ws. phase_of e = 3"
    and "\<forall>e\<in>set ps. phase_of e = 4"
    and "\<forall>returncode. ProcessExit returncode \<in> set bs \<and> returncode \<noteq> 0 \<longrightarrow>
           fst (update_viewconfs en a w) = Some (RuntimeError returncode) \<and> ws = [] \<and> ps = []"
proof (cases en a w rule: update_viewconfs_cases)
  case (resolve_fails ex w1)
  from resolve_origin_trace [of en a w] resolve_fails(1) obtain rs where
    "trace w1 = trace w @ rs" "\<forall>e\<in>set rs. phase_of e = 0" by auto
  with resolve_fails(2) show ?thesis
    by (intro that [of rs "[]" "[]" "[]" "[]"]) simp_all
next
  case (no_dir u p w1)
  from resolve_origin_trace [of en a w] no_dir(1) obtain rs where
    "trace w1 = trace w @ rs" "\<forall>e\<in>set rs. phase_of e = 0" by auto
  with no_dir(2) show ?thesis
    by (intro that [of rs "[]" "[]" "[]" "[]"]) simp_all
next
  case (stop_fails u p d w1 ex w2)
  from resolve_origin_trace [of en a w] stop_fails(1) obtain rs where
    rs: "trace w1 = trace w @ rs" "\<forall>e\<in>set rs. phase_of e = 0" by auto
  from stop_container_trace [of en "old_hg_name a" w1] stop_fails(2)
  have ss: "trace w2 = trace w1 @ (case old_hg_name a of None \<Rightarrow> [] | Some n \<Rightarrow> [Stop [n]])"
    by simp
  from rs ss stop_fails(3) show ?thesis
    by (intro that [of rs "case old_hg_name a of None \<Rightarrow> [] | Some n \<Rightarrow> [Stop [n]]" "[]" "[]" "[]"])
      simp_all
next
  case (backup_fails u p d w1 w2 ex w3)
  from resolve_origin_trace [of en a w] backup_fails(1) obtain rs where
    rs: "trace w1 = trace w @ rs" "\<forall>e\<in>set rs. phase_of e = 0" by auto
  from stop_container_trace [of en "old_hg_name a" w1] backup_fails(2)
  have ss: "trace w2 = trace w1 @ (case old_hg_name a of None \<Rightarrow> [] | Some n \<Rightarrow> [Stop [n]])"
    by simp
  from backup_trace [of en "op_join d (SQLITEDB en)" "op_join d (SQLITEDB en @ ''.updated'')" w2]
    backup_fails(3) obtain bs where
    bs: "trace w3 = trace w2 @ bs" "\<forall>e\<in>set bs. phase_of e = 2"
      "\<forall>returncode. ProcessExit returncode \<in> set bs \<and> returncode \<noteq> 0 \<longrightarrow>
           Some ex = Some (RuntimeError returncode)"
    by auto
  from rs ss bs backup_fails(4) show ?thesis
    by (intro that [of rs "case old_hg_name a of None \<Rightarrow> [] | Some n \<Rightarrow> [Stop [n]]" bs "[]" "[]"])
      simp_all
next
  case (rewrite_fails u p d w1 w2 w3 ex w4)
  from resolve_origin_trace [of en a w] rewrite_fails(1) obtain rs where
    rs: "trace w1 = trace w @ rs" "\<forall>e\<in>set rs. phase_of e = 0" by auto
  from stop_container_trace [of en "old_hg_name a" w1] rewrite_fails(2)
  have ss: "trace w2 = trace w1 @ (case old_hg_name a of None \<Rightarrow> [] | Some n \<Rightarrow> [Stop [n]])"
    by simp
  from backup_trace [of en "op_join d (SQLITEDB en)" "op_join d (SQLITEDB en @ ''.updated'')" w2]
    rewrite_fails(3) obtain bs where
    bs: "trace w3 = trace w2 @ bs" "\<forall>e\<in>set bs. phase_of e = 2"
      "\<forall>returncode. ProcessExit returncode \<in> set bs \<and> returncode \<noteq> 0 \<longrightarrow> False"
    by auto
  from rewrite_trace [of en "op_join d (SQLITEDB en @ ''.updated'')" "py_format (origin_of u p)"
      "destination_of (new_site_url a) (new_port a)" w3] rewrite_fails(4) obtain ws where
    ws: "trace w4 = trace w3 @ ws" "\<forall>e\<in>set ws. phase_of e = 3"
    by auto
  from rs ss bs ws rewrite_fails(5) show ?thesis
    by (intro that [of rs "case old_hg_name a of None \<Rightarrow> [] | Some n \<Rightarrow> [Stop [n]]" bs ws "[]"])
      auto
next
  case (completes u p d w1 w2 w3 w4)
  from resolve_origin_trace [of en a w] completes(1) obtain rs where
    rs: "trace w1 = trace w @ rs" "\<forall>e\<in>set rs. phase_of e = 0" by auto
  from stop_container_trace [of en "old_hg_name a" w1] completes(2)
  have ss: "trace w2 = trace w1 @ (case old_hg_name a of None \<Rightarrow> [] | Some n \<Rightarrow> [Stop [n]])"
    by simp
  from backup_trace [of en "op_join d (SQLITEDB en)" "op_join d (SQLITEDB en @ ''.updated'')" w2]
    completes(3) obtain bs where
    bs: "trace w3 = trace w2 @ bs" "\<forall>e\<in>set bs. phase_of e = 2"
      "\<forall>returncode. ProcessExit returncode \<in> set bs \<and> returncode \<noteq> 0 \<longrightarrow> False"
    by auto
  from rewrite_trace [of en "op_join d (SQLITEDB en @ ''.updated'')" "py_format (origin_of u p)"
      "destination_of (new_site_url a) (new_port a)" w3] completes(4) obtain ws where
    ws: "trace w4 = trace w3 @ ws" "\<forall>e\<in>set ws. phase_of e = 3"
    by auto
  from rs ss bs ws completes(5) show ?thesis
    by (intro that [of rs "case old_hg_name a of None \<Rightarrow> [] | Some n \<Rightarrow> [Stop [n]]" bs ws
          "[Stderr (ReadyForMigration (op_join d (SQLITEDB en @ ''.updated'')))]"])
      (auto simp: report_world)
qed

subsection \<open>Order of the phases and the failed backup\<close>

lemma sorted_constant: "\<forall>x\<in>set xs. x = (c::nat) \<Longrightarrow> sorted xs"
  by (induction xs) auto

lemma stop_events_phase:
  "\<forall>e\<in>set (case name of None \<Rightarrow> [] | Some n \<Rightarrow> [Stop [n]]). phase_of e = 1"
  by (cases name) simp_all

lemma run_events_shape:
  obtains rs ss bs ws ps where
    "run_events en a w = rs @ ss @ bs @ ws @ ps"
    and "trace (snd (update_viewconfs en a w)) = trace w @ run_events en a w"
    and "\<forall>e\<in>set rs. phase_of e = 0"
    and "\<forall>e\<in>set ss. phase_of e = 1"
    and "ss = [] \<and> bs = [] \<or> ss = (case old_hg_name a of None \<Rightarrow> [] | Some n \<Rightarrow> [Stop [n]])"
    and "\<forall>e\<in>set bs. phase_of e = 2"
    and "\<forall>e\<in>set ws. phase_of e = 3"
    and "\<forall>e\<in>set ps. phase_of e = 4"
    and "\<forall>returncode. ProcessExit returncode \<in> set bs \<and> returncode \<noteq> 0 \<longrightarrow>
           fst (update_viewconfs en a w) = Some (RuntimeError returncode) \<and> ws = [] \<and> ps = []"
proof -
  obtain rs ss bs ws ps where s:
    "trace (snd (update_viewconfs en a w)) = trace w @ rs @ ss @ bs @ ws @ ps"
    "\<forall>e\<in>set rs. phase_of e = 0"
    "ss = [] \<and> bs = [] \<or> ss = (case old_hg_name a of None \<Rightarrow> [] | Some n \<Rightarrow> [Stop [n]])"
    "\<forall>e\<in>set bs. phase_of e = 2"
    "\<forall>e\<in>set ws. phase_of e = 3"
    "\<forall>e\<in>set ps. phase_of e = 4"
    "\<forall>returncode. ProcessExit returncode \<in> set bs \<and> returncode \<noteq> 0 \<longrightarrow>
           fst (update_viewconfs en a w) = Some (RuntimeError returncode) \<and> ws = [] \<and> ps = []"
    by (rule run_shape)
  have ev: "run_events en a w = rs @ ss @ bs @ ws @ ps"
    by (simp add: run_events_def s(1))
  have "\<forall>e\<in>set ss. phase_of e = 1"
    using s(3) stop_events_phase [of "old_hg_name a"] by auto
  with s ev show ?thesis
    by (intro that [of rs ss bs ws ps]) simp_all
qed

text \<open>
  C9.  The events of a run are ordered by phase: registry queries, then the stop request,
  then the backup, then the rewrite, then the report.  When a deployment name was given,
  every event of the backup comes after the stop request for that deployment.
\<close>

theorem phases_in_order:
  "trace (snd (update_viewconfs en a w)) = trace w @ run_events en a w
   \<and> sorted (map phase_of (run_events en a w))
   \<and> (\<forall>n i. old_hg_name a = Some n \<longrightarrow> i < length (run_events en a w) \<longrightarrow>
          phase_of (run_events en a w ! i) = 2 \<longrightarrow>
          (\<exists>j<i. run_events en a w ! j = Stop [n]))"
proof -
  obtain rs ss bs ws ps where s:
    "run_events en a w = rs @ ss @ bs @ ws @ ps"
    "trace (snd (update_viewconfs en a w)) = trace w @ run_events en a w"
    "\<forall>e\<in>set rs. phase_of e = 0"
    "\<forall>e\<in>set ss. phase_of e = 1"
    "ss = [] \<and> bs = [] \<or> ss = (case old_hg_name a of None \<Rightarrow> [] | Some n \<Rightarrow> [Stop [n]])"
    "\<forall>e\<in>set bs. phase_of e = 2"
    "\<forall>e\<in>set ws. phase_of e = 3"
    "\<forall>e\<in>set ps. phase_of e = 4"
    by (rule run_events_shape)
  have "sorted (map phase_of rs)" "sorted (map phase_of ss)" "sorted (map phase_of bs)"
    "sorted (map phase_of ws)" "sorted (map phase_of ps)"
    using s(3,4,6,7,8)
    by (auto intro: sorted_constant [of _ 0] sorted_constant [of _ 1] sorted_constant [of _ 2]
        sorted_constant [of _ 3] sorted_constant [of _ 4])
  then have sorted: "sorted (map phase_of (run_events en a w))"
    unfolding s(1) using s(3,4,6,7,8)
    by (auto simp: sorted_append)
  have stop: "\<exists>j<i. run_events en a w ! j = Stop [n]"
    if n: "old_hg_name a = Some n" and i: "i < length (run_events en a w)"
      and ph: "phase_of (run_events en a w ! i) = 2" for n i
  proof -
    have mem: "run_events en a w ! i \<in> set (run_events en a w)"
      using i by simp
    have "bs \<noteq> []"
    proof
      assume "bs = []"
      with mem s(1) have "run_events en a w ! i \<in> set rs \<union> set ss \<union> set ws \<union> set ps"
        by simp
      with s(3,4,7,8) ph show False by auto
    qed
    with s(5) n have ss: "ss = [Stop [n]]" by simp
    have ev: "run_events en a w = rs @ Stop [n] # (bs @ ws @ ps)"
      using s(1) ss by simp
    have "\<not> i < length rs"
    proof
      assume "i < length rs"
      then have "run_events en a w ! i \<in> set rs"
        unfolding ev by (simp add: nth_append)
      with s(3) ph show False by auto
    qed
    moreover have "i \<noteq> length rs"
    proof
      assume "i = length rs"
      then have "run_events en a w ! i = Stop [n]"
        unfolding ev by simp
      with ph show False by simp
    qed
    ultimately have "length rs < i" by simp
    moreover have "run_events en a w ! length rs = Stop [n]"
      unfolding ev by simp
    ultimately show ?thesis by blast
  qed
  from s(2) sorted stop show ?thesis by blast
qed

text \<open>
  C8.  When the \<^verbatim>\<open>sqlite3\<close> process ran and returned a code other than zero, the command
  raises \<^verbatim>\<open>RuntimeError\<close> and ends with a non-zero status; no event of the rewrite or the
  report happened: the copy was not opened, no statement was executed, nothing was
  committed, and the final message was not written.
\<close>

theorem backup_failure_aborts:
  assumes "ProcessExit returncode \<in> set (run_events en a w)" and "returncode \<noteq> 0"
  shows "fst (update_viewconfs en a w) = Some (RuntimeError returncode)
     \<and> exit_status (fst (update_viewconfs en a w)) \<noteq> 0
     \<and> (\<forall>e\<in>set (run_events en a w). phase_of e \<le> 2)
     \<and> (\<forall>p. Connect p \<notin> set (run_events en a w))
     \<and> (\<forall>q. Execute q \<notin> set (run_events en a w))
     \<and> Commit \<notin> set (run_events en a w)
     \<and> (\<forall>p. Stderr (ReadyForMigration p) \<notin> set (run_events en a w))"
proof -
  obtain rs ss bs ws ps where s:
    "run_events en a w = rs @ ss @ bs @ ws @ ps"
    "\<forall>e\<in>set rs. phase_of e = 0"
    "\<forall>e\<in>set ss. phase_of e = 1"
    "\<forall>e\<in>set bs. phase_of e = 2"
    "\<forall>e\<in>set ws. phase_of e = 3"
    "\<forall>e\<in>set ps. phase_of e = 4"
    "\<forall>returncode. ProcessExit returncode \<in> set bs \<and> returncode \<noteq> 0 \<longrightarrow>
           fst (update_viewconfs en a w) = Some (RuntimeError returncode) \<and> ws = [] \<and> ps = []"
    by (rule run_events_shape)
  have "ProcessExit returncode \<in> set bs"
  proof (rule ccontr)
    assume "ProcessExit returncode \<notin> set bs"
    with assms(1) s(1) have "ProcessExit returncode \<in> set rs \<union> set ss \<union> set ws \<union> set ps"
      by auto
    with s(2,3,5,6) show False by auto
  qed
  with s(7) assms(2) have r: "fst (update_viewconfs en a w) = Some (RuntimeError returncode)"
    and e: "ws = []" "ps = []"
    by blast+
  have le: "\<forall>e\<in>set (run_events en a w). phase_of e \<le> 2"
    unfolding s(1) e using s(2,3,4) by auto
  have "\<And>p. Connect p \<notin> set (run_events en a w)"
    "\<And>q. Execute q \<notin> set (run_events en a w)"
    "Commit \<notin> set (run_events en a w)"
    "\<And>p. Stderr (ReadyForMigration p) \<notin> set (run_events en a w)"
    using le by fastforce+
  with r le show ?thesis
    by (simp add: exit_status_def)
qed

lemma sample_statement_accepted:
  "statement_error (db_query ''http://old:8000'' ''http://new'') = None"
  using sample_endpoints_encodable(1,2)
  by (simp add: statement_error_None encodable_text_db_query)

lemma sample_run:
  "fst (update_viewconfs sample_env sample_args sample_world) = None"
  "run_events sample_env sample_args sample_world =
     [GetSiteUrl ''hg'', GetPort ''hg'', GetDataDir ''hg'', Stop [''hg''],
      RunProcess [''sqlite3'', ''/d/db'', ''.backup /d/db.updated''], ProcessExit 0,
      Connect ''/d/db.updated'', Execute (db_query ''http://old:8000'' ''http://new''),
      Commit, CloseConn, Stderr (ReadyForMigration ''/d/db.updated'')]"
  "files (snd (update_viewconfs sample_env sample_args sample_world)) ''/d/db''
     = Some (Store [''u=http://old:8000/t'', ''{}''])"
  "files (snd (update_viewconfs sample_env sample_args sample_world)) ''/d/db.updated''
     = Some (Store [''u=http://new/t'', ''{}''])"
  by (simp_all add: run_events_def update_viewconfs_def resolve_origin_def stop_container_def
      backup_def sqlite3_backup_def sample_env_def sample_args_def sample_world_def
      op_join_def origin_of_def destination_of_def py_format_def old_port_option_def
      new_port_option_def report_def rewrite_def execute_def sample_statement_accepted
      parse_update_db_query sample_endpoints_encodable apostrophe_def Let_def suffix_Cons)

lemma sample_failed_backup:
  "run_events (sample_env\<lparr>sp_run := (\<lambda>argv fs. Exited 1 fs)\<rparr>) sample_args sample_world =
     [GetSiteUrl ''hg'', GetPort ''hg'', GetDataDir ''hg'', Stop [''hg''],
      RunProcess [''sqlite3'', ''/d/db'', ''.backup /d/db.updated''], ProcessExit 1]"
  by (simp add: run_events_def update_viewconfs_def resolve_origin_def stop_container_def
      backup_def sample_env_def sample_args_def sample_world_def
      op_join_def origin_of_def destination_of_def py_format_def old_port_option_def
      new_port_option_def Let_def suffix_Cons)

theorem phases_in_order_witness:
  "old_hg_name sample_args = Some ''hg''
   \<and> sorted (map phase_of (run_events sample_env sample_args sample_world))
   \<and> (4::nat) < length (run_events sample_env sample_args sample_world)
   \<and> phase_of (run_events sample_env sample_args sample_world ! 4) = 2
   \<and> (\<exists>j<4. run_events sample_env sample_args sample_world ! j = Stop [''hg''])"
proof -
  have n: "old_hg_name sample_args = Some ''hg''"
    by (simp add: sample_args_def)
  have i: "(4::nat) < length (run_events sample_env sample_args sample_world)"
    "phase_of (run_events sample_env sample_args sample_world ! 4) = 2"
    by (simp_all add: sample_run(2))
  from phases_in_order [of sample_env sample_args sample_world] n i show ?thesis
    by blast
qed

theorem backup_failure_aborts_witness:
  "ProcessExit 1 \<in> set (run_events (sample_env\<lparr>sp_run := (\<lambda>argv fs. Exited 1 fs)\<rparr>)
       sample_args sample_world)
   \<and> (1::int) \<noteq> 0
   \<and> fst (update_viewconfs (sample_env\<lparr>sp_run := (\<lambda>argv fs. Exited 1 fs)\<rparr>) sample_args
       sample_world) = Some (RuntimeError 1)
   \<and> Commit \<notin> set (run_events (sample_env\<lparr>sp_run := (\<lambda>argv fs. Exited 1 fs)\<rparr>)
       sample_args sample_world)"
proof -
  have h: "ProcessExit 1 \<in> set (run_events (sample_env\<lparr>sp_run := (\<lambda>argv fs. Exited 1 fs)\<rparr>)
       sample_args sample_world)"
    by (simp add: sample_failed_backup)
  have z: "(1::int) \<noteq> 0" by simp
  from backup_failure_aborts [OF h z] h z show ?thesis
    by blast
qed

subsection \<open>The original database\<close>

lemma op_join_updated_differs: "op_join d (s @ ''.updated'') \<noteq> op_join d s"
  by (simp add: op_join_updated)

lemma run_files:
  obtains (unchanged) "files (snd (update_viewconfs en a w)) = files w"
  | (stopped) u p d where
      "fst (resolve_origin en a w) = Inr (u, p, Some d)"
      and "files (snd (update_viewconfs en a w)) = stopped_files en a (files w)"
  | (reached_backup) u p d and w3 :: world where
      "fst (resolve_origin en a w) = Inr (u, p, Some d)"
      and "\<forall>q. q \<noteq> op_join d (SQLITEDB en @ ''.updated'') \<longrightarrow>
             files (snd (update_viewconfs en a w)) q = files w3 q"
      and "sp_run en [''sqlite3'', op_join d (SQLITEDB en),
                ''.backup '' @ op_join d (SQLITEDB en @ ''.updated'')]
              (stopped_files en a (files w)) = NotInstalled
             \<longrightarrow> (\<forall>q. q \<noteq> op_join d (SQLITEDB en @ ''.updated'') \<longrightarrow>
                   files w3 q = stopped_files en a (files w) q)"
      and "\<forall>returncode fs. sp_run en [''sqlite3'', op_join d (SQLITEDB en),
                ''.backup '' @ op_join d (SQLITEDB en @ ''.updated'')]
              (stopped_files en a (files w)) = Exited returncode fs
             \<longrightarrow> files w3 = fs"
proof (cases en a w rule: update_viewconfs_cases)
  case (resolve_fails ex w1)
  with resolve_origin_files [of en a w] show ?thesis
    by (intro unchanged) simp
next
  case (no_dir u p w1)
  with resolve_origin_files [of en a w] show ?thesis
    by (intro unchanged) simp
next
  case (stop_fails u p d w1 ex w2)
  have f2: "files w2 = stopped_files en a (files w)"
    using stop_fails(1,2) resolve_origin_files [of en a w]
      stop_container_files [of en a w1] by simp
  with stop_fails show ?thesis
    by (intro stopped [of u p d]) simp_all
next
  case (backup_fails u p d w1 w2 ex w3)
  have f2: "files w2 = stopped_files en a (files w)"
    using backup_fails(1,2) resolve_origin_files [of en a w]
      stop_container_files [of en a w1] by simp
  show ?thesis
    using backup_fails f2
      backup_files [of en "op_join d (SQLITEDB en)" "op_join d (SQLITEDB en @ ''.updated'')" w2]
    by (intro reached_backup [of u p d w3]) auto
next
  case (rewrite_fails u p d w1 w2 w3 ex w4)
  have f2: "files w2 = stopped_files en a (files w)"
    using rewrite_fails(1,2) resolve_origin_files [of en a w]
      stop_container_files [of en a w1] by simp
  have f4: "\<forall>q. q \<noteq> op_join d (SQLITEDB en @ ''.updated'') \<longrightarrow> files w4 q = files w3 q"
    using rewrite_files [of _ "op_join d (SQLITEDB en @ ''.updated'')" en
        "py_format (origin_of u p)" "destination_of (new_site_url a) (new_port a)" w3]
      rewrite_fails(4) by simp
  show ?thesis
    using rewrite_fails f2 f4
      backup_files [of en "op_join d (SQLITEDB en)" "op_join d (SQLITEDB en @ ''.updated'')" w2]
    by (intro reached_backup [of u p d w3]) auto
next
  case (completes u p d w1 w2 w3 w4)
  have f2: "files w2 = stopped_files en a (files w)"
    using completes(1,2) resolve_origin_files [of en a w]
      stop_container_files [of en a w1] by simp
  have f4: "\<forall>q. q \<noteq> op_join d (SQLITEDB en @ ''.updated'') \<longrightarrow> files w4 q = files w3 q"
    using rewrite_files [of _ "op_join d (SQLITEDB en @ ''.updated'')" en
        "py_format (origin_of u p)" "destination_of (new_site_url a) (new_port a)" w3]
      completes(4) by simp
  show ?thesis
    using completes f2 f4
      backup_files [of en "op_join d (SQLITEDB en)" "op_join d (SQLITEDB en @ ''.updated'')" w2]
    by (intro reached_backup [of u p d w3]) (auto simp: report_world)
qed

text \<open>
  C3 (amended).  However the run ends, every file whose content changed is the copy
  \<^verbatim>\<open><data_dir>/<SQLITEDB>.updated\<close>, or was changed by stopping the container, or was
  changed by the \<^verbatim>\<open>sqlite3\<close> process: the command itself writes the copy only, and the
  path of the copy differs from the path of the original.  The original
  \<^verbatim>\<open><data_dir>/<SQLITEDB>\<close> has the content it had before the run if the \<^verbatim>\<open>sqlite3\<close>
  process leaves the database it is given to read as it found it and stopping the
  container leaves that file as it found it.
\<close>

theorem original_database_untouched:
  "(\<forall>u p d. fst (resolve_origin en a w) = Inr (u, p, Some d) \<longrightarrow>
       op_join d (SQLITEDB en @ ''.updated'') \<noteq> op_join d (SQLITEDB en)
       \<and> ((\<forall>src cmd fs returncode fs'.
               sp_run en [''sqlite3'', src, cmd] fs = Exited returncode fs' \<longrightarrow> fs' src = fs src)
            \<and> stopped_files en a (files w) (op_join d (SQLITEDB en))
                = files w (op_join d (SQLITEDB en))
            \<longrightarrow> files (snd (update_viewconfs en a w)) (op_join d (SQLITEDB en))
                  = files w (op_join d (SQLITEDB en))))
   \<and> (\<forall>q. files (snd (update_viewconfs en a w)) q \<noteq> files w q \<longrightarrow>
        (\<exists>u p d. fst (resolve_origin en a w) = Inr (u, p, Some d)
           \<and> (q = op_join d (SQLITEDB en @ ''.updated'')
              \<or> stopped_files en a (files w) q \<noteq> files w q
              \<or> (\<exists>returncode fs.
                   sp_run en [''sqlite3'', op_join d (SQLITEDB en),
                     ''.backup '' @ op_join d (SQLITEDB en @ ''.updated'')]
                     (stopped_files en a (files w)) = Exited returncode fs
                   \<and> fs q \<noteq> stopped_files en a (files w) q))))
   \<and> ((\<forall>u p d. fst (resolve_origin en a w) \<noteq> Inr (u, p, Some d)) \<longrightarrow>
        files (snd (update_viewconfs en a w)) = files w)"
proof (cases en a w rule: run_files)
  case unchanged
  then show ?thesis
    by (simp add: op_join_updated_differs)
next
  case (stopped u p d)
  then show ?thesis
    by (auto simp: op_join_updated_differs)
next
  case (reached_backup u p d w3)
  let ?o = "op_join d (SQLITEDB en)"
  let ?u = "op_join d (SQLITEDB en @ ''.updated'')"
  let ?s = "stopped_files en a (files w)"
  have ne: "?u \<noteq> ?o" by (rule op_join_updated_differs)
  have part1: "files (snd (update_viewconfs en a w)) ?o = files w ?o"
    if tool: "\<forall>src cmd fs returncode fs'.
               sp_run en [''sqlite3'', src, cmd] fs = Exited returncode fs' \<longrightarrow> fs' src = fs src"
      and st: "?s ?o = files w ?o"
  proof -
    have "files w3 ?o = ?s ?o"
    proof (cases "sp_run en [''sqlite3'', ?o, ''.backup '' @ ?u] ?s")
      case NotInstalled
      with reached_backup(3) ne show ?thesis by simp
    next
      case (Exited returncode fs)
      with reached_backup(4) tool show ?thesis by auto
    qed
    with reached_backup(2) ne st show ?thesis by simp
  qed
  have part2: "q = ?u \<or> ?s q \<noteq> files w q
      \<or> (\<exists>returncode fs. sp_run en [''sqlite3'', ?o, ''.backup '' @ ?u] ?s = Exited returncode fs
            \<and> fs q \<noteq> ?s q)"
    if ch: "files (snd (update_viewconfs en a w)) q \<noteq> files w q" for q
  proof (cases "q = ?u \<or> ?s q \<noteq> files w q")
    case True
    then show ?thesis by blast
  next
    case False
    with reached_backup(2) ch have c3: "files w3 q \<noteq> ?s q" by simp
    show ?thesis
    proof (cases "sp_run en [''sqlite3'', ?o, ''.backup '' @ ?u] ?s")
      case NotInstalled
      with reached_backup(3) False c3 show ?thesis by simp
    next
      case (Exited returncode fs)
      with reached_backup(4) c3 show ?thesis by auto
    qed
  qed
  from reached_backup(1) ne part1 part2 show ?thesis
    by auto
qed

lemma sample_tool_reads_only:
  "sp_run sample_env [''sqlite3'', src, cmd] fs = Exited returncode fs' \<Longrightarrow> fs' src = fs src"
  by (auto simp: sample_env_def sqlite3_backup_def split: option.splits dbfile.splits)

lemma sample_resolution:
  "fst (resolve_origin en sample_args sample_world)
     = (case get_site_url en ''hg'' of Inl ex \<Rightarrow> Inl (NameError ''docker'')
        | Inr u \<Rightarrow> (case get_port en ''hg'' of Inl ex \<Rightarrow> Inl (NameError ''docker'')
        | Inr p \<Rightarrow> (case get_data_dir en ''hg'' of Inl ex \<Rightarrow> Inl (NameError ''docker'')
        | Inr d \<Rightarrow> Inr (Some u, p, Some d))))"
  by (simp add: resolve_origin_def except_NotFound_def module_globals_def sample_args_def Let_def
      split: sum.splits)

theorem original_database_untouched_witness:
  "fst (resolve_origin sample_env sample_args sample_world)
     = Inr (Some ''http://old'', ''8000'', Some ''/d'')
   \<and> op_join ''/d'' (SQLITEDB sample_env) = ''/d/db''
   \<and> stopped_files sample_env sample_args (files sample_world) ''/d/db''
       = files sample_world ''/d/db''
   \<and> files (snd (update_viewconfs sample_env sample_args sample_world)) ''/d/db''
       = files sample_world ''/d/db''
   \<and> files sample_world ''/d/db'' = Some (Store [''u=http://old:8000/t'', ''{}''])
   \<and> files (snd (update_viewconfs sample_env sample_args sample_world)) ''/d/db.updated''
       = Some (Store [''u=http://new/t'', ''{}''])
   \<and> files sample_world ''/d/db.updated'' = None"
proof -
  have j: "op_join ''/d'' (SQLITEDB sample_env) = ''/d/db''"
    by (simp add: op_join_def sample_env_def suffix_Cons)
  have w: "files sample_world ''/d/db'' = Some (Store [''u=http://old:8000/t'', ''{}''])"
    "files sample_world ''/d/db.updated'' = None"
    by (simp_all add: sample_world_def)
  have r: "fst (resolve_origin sample_env sample_args sample_world)
     = Inr (Some ''http://old'', ''8000'', Some ''/d'')"
    by (simp add: sample_resolution sample_env_def)
  have tool: "\<forall>src cmd fs returncode fs'.
      sp_run sample_env [''sqlite3'', src, cmd] fs = Exited returncode fs' \<longrightarrow> fs' src = fs src"
    using sample_tool_reads_only by blast
  have st: "stopped_files sample_env sample_args (files sample_world)
      (op_join ''/d'' (SQLITEDB sample_env)) = files sample_world (op_join ''/d'' (SQLITEDB sample_env))"
    by (simp add: stopped_files_def sample_env_def sample_args_def)
  from original_database_untouched [of sample_env sample_args sample_world] r tool st
  have "files (snd (update_viewconfs sample_env sample_args sample_world))
          (op_join ''/d'' (SQLITEDB sample_env))
        = files sample_world (op_join ''/d'' (SQLITEDB sample_env))"
    by blast
  with j w r st sample_run(4) show ?thesis
    by simp
qed

text \<open>
  The claim as written fails when the \<^verbatim>\<open>sqlite3\<close> process that line 134 starts on the
  original writes it: the run returns, and the original has lost its last record.
\<close>

theorem original_database_untouched_counterexample:
  "fst (update_viewconfs (sample_env\<lparr>sp_run := sqlite3_recovering\<rparr>) sample_args sample_world) = None
   \<and> files sample_world ''/d/db'' = Some (Store [''u=http://old:8000/t'', ''{}''])
   \<and> files (snd (update_viewconfs (sample_env\<lparr>sp_run := sqlite3_recovering\<rparr>) sample_args
        sample_world)) ''/d/db'' = Some (Store [''u=http://old:8000/t''])"
  by (simp add: update_viewconfs_def resolve_origin_def stop_container_def
      backup_def sqlite3_recovering_def sample_env_def sample_args_def sample_world_def
      op_join_def origin_of_def destination_of_def py_format_def old_port_option_def
      new_port_option_def report_def rewrite_def execute_def sample_statement_accepted
      parse_update_db_query sample_endpoints_encodable apostrophe_def Let_def suffix_Cons)

end
